theory Spec2Isabelle
  imports Main "HOL-Library.Word" "HOL-Library.List_Lexorder" "HOL-Library.Char_ord"
begin

unbundle bit_operations_syntax

section \<open>Python values\<close>

text \<open>
  The values that reach the checksum code of \<^verbatim>\<open>core/common/checksums.py\<close>: the JSON
  scalars, UUIDs, lists and dicts. A dict is an association list in insertion order, as
  Python iterates it; its keys are strings (the code calls \<^verbatim>\<open>key.startswith\<close> on them) and
  are pairwise distinct. A string is a list of code points below 256. Floats are left out.
\<close>

datatype scalar = SNone | SBool bool | SInt int | SStr string

datatype pyval =
    PScalar scalar
  | PUUID string
  | PList "pyval list"
  | PDict "(string \<times> pyval) list"

abbreviation PNone :: pyval where "PNone \<equiv> PScalar SNone"
abbreviation PBool :: "bool \<Rightarrow> pyval" where "PBool b \<equiv> PScalar (SBool b)"
abbreviation PInt :: "int \<Rightarrow> pyval" where "PInt i \<equiv> PScalar (SInt i)"
abbreviation PStr :: "string \<Rightarrow> pyval" where "PStr s \<equiv> PScalar (SStr s)"

type_synonym pydict = "(string \<times> pyval) list"

datatype py_error = TypeError | KeyError | AttributeError

text \<open>Python truthiness (\<^verbatim>\<open>if value\<close>, \<^verbatim>\<open>not value\<close>).\<close>

fun truthy :: "pyval \<Rightarrow> bool" where
  "truthy (PScalar SNone) = False"
| "truthy (PScalar (SBool b)) = b"
| "truthy (PScalar (SInt i)) = (i \<noteq> 0)"
| "truthy (PScalar (SStr s)) = (s \<noteq> [])"
| "truthy (PUUID u) = True"
| "truthy (PList xs) = (xs \<noteq> [])"
| "truthy (PDict kvs) = (kvs \<noteq> [])"

text \<open>\<^verbatim>\<open>d[key] = value\<close>: an existing key keeps its place, a new key goes last.\<close>

fun dict_set :: "('k \<times> 'v) list \<Rightarrow> 'k \<Rightarrow> 'v \<Rightarrow> ('k \<times> 'v) list" where
  "dict_set [] k v = [(k, v)]"
| "dict_set ((k', v') # rest) k v =
     (if k' = k then (k, v) # rest else (k', v') # dict_set rest k v)"

text \<open>\<^verbatim>\<open>sep.join(parts)\<close>.\<close>

fun join :: "string \<Rightarrow> string list \<Rightarrow> string" where
  "join sep [] = []"
| "join sep [p] = p"
| "join sep (p # q # ps) = p @ sep @ join sep (q # ps)"

section \<open>json.dumps on scalars and key lists\<close>

text \<open>
  \<^verbatim>\<open>json.dumps\<close> of the standard library with its default arguments
  (\<^verbatim>\<open>ensure_ascii=True\<close>, separators \<^verbatim>\<open>', '\<close>), on the arguments \<^verbatim>\<open>_serialize\<close>
  passes to it: a scalar, or the list of a dict's keys.
\<close>

definition hex_digit :: "nat \<Rightarrow> char" where
  "hex_digit n = ''0123456789abcdef'' ! (n mod 16)"

definition json_escape :: "char \<Rightarrow> string" where
  "json_escape c =
     (if c = CHR 0x22 then [CHR 0x5C, CHR 0x22]
      else if c = CHR 0x5C then [CHR 0x5C, CHR 0x5C]
      else if c = CHR 0x08 then [CHR 0x5C, CHR ''b'']
      else if c = CHR 0x0C then [CHR 0x5C, CHR ''f'']
      else if c = CHR 0x0A then [CHR 0x5C, CHR ''n'']
      else if c = CHR 0x0D then [CHR 0x5C, CHR ''r'']
      else if c = CHR 0x09 then [CHR 0x5C, CHR ''t'']
      else if (0x20::nat) \<le> of_char c \<and> of_char c \<le> (0x7E::nat) then [c]
      else [CHR 0x5C, CHR ''u'', CHR ''0'', CHR ''0'',
            hex_digit (of_char c div 16), hex_digit (of_char c mod 16)])"

definition json_str :: "string \<Rightarrow> string" where
  "json_str s = CHR 0x22 # concat (map json_escape s) @ [CHR 0x22]"

function dec_nat :: "nat \<Rightarrow> string" where
  "dec_nat n = (if n < 10 then [hex_digit n] else dec_nat (n div 10) @ [hex_digit (n mod 10)])"
  by pat_completeness auto
termination
  by (relation "measure id") auto

definition json_int :: "int \<Rightarrow> string" where
  "json_int i = (if i < 0 then CHR ''-'' # dec_nat (nat (- i)) else dec_nat (nat i))"

fun json_dumps :: "scalar \<Rightarrow> string" where
  "json_dumps SNone = ''null''"
| "json_dumps (SBool b) = (if b then ''true'' else ''false'')"
| "json_dumps (SInt i) = json_int i"
| "json_dumps (SStr s) = json_str s"

definition json_dumps_keys :: "string list \<Rightarrow> string" where
  "json_dumps_keys ks = ''['' @ join '', '' (map json_str ks) @ '']''"

section \<open>generic_sort\<close>

text \<open>
  Modelled from the spec: \<^verbatim>\<open>generic_sort\<close> of \<^verbatim>\<open>core.common.utils\<close> is not among the
  sources. The spec (4.1, 9) says it sorts by a generic total order over mixed types and
  leaves the order open, so the order is the parameter \<open>le\<close>; the sort is stable, as
  Python's \<^verbatim>\<open>sorted\<close> is.
\<close>

fun place :: "('a \<Rightarrow> 'a \<Rightarrow> bool) \<Rightarrow> 'a \<Rightarrow> 'a list \<Rightarrow> 'a list" where
  "place le x [] = [x]"
| "place le x (y # ys) = (if le x y then x # y # ys else y # place le x ys)"

fun generic_sort :: "('a \<Rightarrow> 'a \<Rightarrow> bool) \<Rightarrow> 'a list \<Rightarrow> 'a list" where
  "generic_sort le [] = []"
| "generic_sort le (x # xs) = place le x (generic_sort le xs)"

text \<open>The order \<open>le\<close> on values, read on dict keys.\<close>

definition key_le :: "(pyval \<Rightarrow> pyval \<Rightarrow> bool) \<Rightarrow> string \<Rightarrow> string \<Rightarrow> bool" where
  "key_le le a b = le (PStr a) (PStr b)"

text \<open>
  Modelled from the spec: "a generic total order" (4.1), read as a linear order: any two
  values compare, the comparison is transitive, and two values that compare both ways are
  the same value.
\<close>

definition total_order :: "('a \<Rightarrow> 'a \<Rightarrow> bool) \<Rightarrow> bool" where
  "total_order le \<longleftrightarrow>
     (\<forall>a b. le a b \<or> le b a) \<and> (\<forall>a b c. le a b \<and> le b c \<longrightarrow> le a c) \<and>
     (\<forall>a b. le a b \<and> le b a \<longrightarrow> a = b)"

text \<open>
  Modelled from the spec: one order of the kind section 9 suggests (type tag first, then
  value), used where a concrete order is needed. Strings compare by code point, as in Python.
\<close>

fun type_tag :: "pyval \<Rightarrow> nat" where
  "type_tag (PScalar SNone) = 0"
| "type_tag (PScalar (SBool b)) = 1"
| "type_tag (PScalar (SInt i)) = 2"
| "type_tag (PScalar (SStr s)) = 3"
| "type_tag (PUUID u) = 4"
| "type_tag (PList xs) = 5"
| "type_tag (PDict kvs) = 6"

fun tag_le :: "pyval \<Rightarrow> pyval \<Rightarrow> bool" where
  "tag_le (PScalar (SBool a)) (PScalar (SBool b)) = (a \<le> b)"
| "tag_le (PScalar (SInt a)) (PScalar (SInt b)) = (a \<le> b)"
| "tag_le (PScalar (SStr a)) (PScalar (SStr b)) = (a \<le> b)"
| "tag_le (PUUID a) (PUUID b) = (a \<le> b)"
| "tag_le a b = (type_tag a \<le> type_tag b)"

section \<open>Checksum._serialize\<close>

text \<open>
  \<open>serialize\<close> is \<^verbatim>\<open>_serialize\<close>: its first statement replaces a one-element list by its
  element, and \<open>serialize_rest\<close> is the rest of the body, run on the value that statement
  leaves. In a dict the keys iterated are the dict's own, so \<^verbatim>\<open>obj[key]\<close> finds each of them;
  the absent case contributes nothing.
\<close>

function serialize :: "(pyval \<Rightarrow> pyval \<Rightarrow> bool) \<Rightarrow> pyval \<Rightarrow> string"
  and serialize_rest :: "(pyval \<Rightarrow> pyval \<Rightarrow> bool) \<Rightarrow> pyval \<Rightarrow> string"
where
  "serialize le obj = serialize_rest le (case obj of PList [x] \<Rightarrow> x | _ \<Rightarrow> obj)"
| "serialize_rest le (PList xs) =
     ''['' @ join '','' (map (serialize le) (generic_sort le xs)) @ '']''"
| "serialize_rest le (PDict kvs) =
     (let keys = generic_sort (key_le le) (map fst kvs);
          acc = ''{'' @ json_dumps_keys keys
      in acc @ concat (map (\<lambda>key. case map_of kvs key of
                                     Some v \<Rightarrow> serialize le v @ '',''
                                   | None \<Rightarrow> []) keys) @ ''}'')"
| "serialize_rest le (PUUID u) = json_dumps (SStr u)"
| "serialize_rest le (PScalar s) = json_dumps s"
  by pat_completeness auto
termination
proof (relation "measure (\<lambda>a. case a of Inl (le, obj) \<Rightarrow> 2 * size obj + 1
                                      | Inr (le, obj) \<Rightarrow> 2 * size obj)", goal_cases)
  case 1
  show ?case by simp
next
  case (2 le obj)
  show ?case by (auto split: pyval.splits list.splits)
next
  case (3 le xs x)
  have placed: "set (place le a bs) = insert a (set bs)" for a :: pyval and bs
    by (induction bs) auto
  have "set (generic_sort le as) = set as" for as :: "pyval list"
    by (induction as) (auto simp: placed)
  with 3 have "x \<in> set xs" by simp
  then have "size x < Suc (size_list size xs)"
    by (simp add: size_list_estimation' less_Suc_eq_le)
  then show ?case by simp
next
  case (4 le kvs keys acc key v)
  have bound: "(k, w) \<in> set ps \<Longrightarrow> size w < Suc (size_list (size_prod (\<lambda>_. 0) size) ps)"
    for k :: string and w :: pyval and ps
    by (induction ps) auto
  from 4 have "(key, v) \<in> set kvs" by (auto dest: map_of_SomeD)
  then have "size v < Suc (size_list (size_prod (\<lambda>_. 0) size) kvs)"
    by (rule bound)
  then show ?case by simp
qed

section \<open>MD5 (hashlib)\<close>

text \<open>
  \<^verbatim>\<open>hashlib.new('MD5')\<close>, \<^verbatim>\<open>update\<close>, \<^verbatim>\<open>hexdigest\<close>: the MD5 function of RFC 1321 on a byte
  string, with the digest in lowercase hexadecimal.
\<close>

definition md5_K :: "32 word list" where
  "md5_K = [
    0xd76aa478, 0xe8c7b756, 0x242070db, 0xc1bdceee, 0xf57c0faf, 0x4787c62a, 0xa8304613, 0xfd469501,
    0x698098d8, 0x8b44f7af, 0xffff5bb1, 0x895cd7be, 0x6b901122, 0xfd987193, 0xa679438e, 0x49b40821,
    0xf61e2562, 0xc040b340, 0x265e5a51, 0xe9b6c7aa, 0xd62f105d, 0x02441453, 0xd8a1e681, 0xe7d3fbc8,
    0x21e1cde6, 0xc33707d6, 0xf4d50d87, 0x455a14ed, 0xa9e3e905, 0xfcefa3f8, 0x676f02d9, 0x8d2a4c8a,
    0xfffa3942, 0x8771f681, 0x6d9d6122, 0xfde5380c, 0xa4beea44, 0x4bdecfa9, 0xf6bb4b60, 0xbebfbc70,
    0x289b7ec6, 0xeaa127fa, 0xd4ef3085, 0x04881d05, 0xd9d4d039, 0xe6db99e5, 0x1fa27cf8, 0xc4ac5665,
    0xf4292244, 0x432aff97, 0xab9423a7, 0xfc93a039, 0x655b59c3, 0x8f0ccc92, 0xffeff47d, 0x85845dd1,
    0x6fa87e4f, 0xfe2ce6e0, 0xa3014314, 0x4e0811a1, 0xf7537e82, 0xbd3af235, 0x2ad7d2bb, 0xeb86d391]"

definition md5_S :: "nat list" where
  "md5_S = [7, 12, 17, 22, 7, 12, 17, 22, 7, 12, 17, 22, 7, 12, 17, 22,
            5, 9, 14, 20, 5, 9, 14, 20, 5, 9, 14, 20, 5, 9, 14, 20,
            4, 11, 16, 23, 4, 11, 16, 23, 4, 11, 16, 23, 4, 11, 16, 23,
            6, 10, 15, 21, 6, 10, 15, 21, 6, 10, 15, 21, 6, 10, 15, 21]"

definition rotl32 :: "nat \<Rightarrow> 32 word \<Rightarrow> 32 word" where
  "rotl32 n w = push_bit n w OR drop_bit (32 - n) w"

type_synonym md5_state = "32 word \<times> 32 word \<times> 32 word \<times> 32 word"

definition md5_step :: "32 word list \<Rightarrow> md5_state \<Rightarrow> nat \<Rightarrow> md5_state" where
  "md5_step m st i = (case st of (a, b, c, d) \<Rightarrow>
     let f = (if i < 16 then (b AND c) OR (NOT b AND d)
              else if i < 32 then (d AND b) OR (NOT d AND c)
              else if i < 48 then b XOR c XOR d
              else c XOR (b OR NOT d));
         g = (if i < 16 then i
              else if i < 32 then (5 * i + 1) mod 16
              else if i < 48 then (3 * i + 5) mod 16
              else (7 * i) mod 16);
         f' = f + a + md5_K ! i + m ! g
     in (d, b + rotl32 (md5_S ! i) f', b, c))"

fun le_word :: "8 word list \<Rightarrow> 32 word" where
  "le_word [] = 0"
| "le_word (x # xs) = ucast x OR push_bit 8 (le_word xs)"

fun chunks :: "nat \<Rightarrow> 'a list \<Rightarrow> 'a list list" where
  "chunks n [] = []"
| "chunks n xs = (if n = 0 then [xs] else take n xs # chunks n (drop n xs))"

definition md5_block :: "md5_state \<Rightarrow> 8 word list \<Rightarrow> md5_state" where
  "md5_block st blk = (case st of (a0, b0, c0, d0) \<Rightarrow>
     case foldl (md5_step (map le_word (chunks 4 blk))) st [0..<64] of
       (a, b, c, d) \<Rightarrow> (a0 + a, b0 + b, c0 + c, d0 + d))"

definition len_bytes :: "64 word \<Rightarrow> 8 word list" where
  "len_bytes w = map (\<lambda>i. ucast (drop_bit (8 * i) w)) [0..<8]"

definition md5_pad :: "8 word list \<Rightarrow> 8 word list" where
  "md5_pad bs = bs @ [0x80] @ replicate ((119 - length bs mod 64) mod 64) 0
                  @ len_bytes (8 * of_nat (length bs))"

definition hex_byte :: "8 word \<Rightarrow> string" where
  "hex_byte b = [hex_digit (unat b div 16), hex_digit (unat b mod 16)]"

definition word_bytes :: "32 word \<Rightarrow> 8 word list" where
  "word_bytes w = map (\<lambda>i. ucast (drop_bit (8 * i) w)) [0..<4]"

definition md5_hexdigest :: "8 word list \<Rightarrow> string" where
  "md5_hexdigest bs =
     (case foldl md5_block (0x67452301, 0xefcdab89, 0x98badcfe, 0x10325476)
             (chunks 64 (md5_pad bs)) of
        (a, b, c, d) \<Rightarrow> concat (map hex_byte (concat (map word_bytes [a, b, c, d]))))"

section \<open>Checksum.generate\<close>

text \<open>
  \<^verbatim>\<open>.encode('utf-8')\<close>: the serialization holds ASCII characters only (\<^verbatim>\<open>json.dumps\<close>
  escapes the others), so each character is one byte. The hash algorithm is the
  default, MD5, which every caller in the file uses.
\<close>

definition encode_utf8 :: "string \<Rightarrow> 8 word list" where
  "encode_utf8 s = map of_char s"

definition generate :: "(pyval \<Rightarrow> pyval \<Rightarrow> bool) \<Rightarrow> pyval \<Rightarrow> string" where
  "generate le obj = md5_hexdigest (encode_utf8 (serialize le obj))"

section \<open>ChecksumModel._cleanup and the static checksum functions\<close>

definition startswith :: "string \<Rightarrow> string \<Rightarrow> bool" where
  "startswith s p = (take (length p) s = p)"

definition is_private :: "string \<times> pyval \<Rightarrow> bool" where
  "is_private kv = startswith (fst kv) ''__''"

text \<open>
  One round of the loop of \<^verbatim>\<open>_cleanup\<close>: \<open>None\<close> is \<^verbatim>\<open>continue\<close>, \<open>Some\<close> is the pair
  stored by \<^verbatim>\<open>result[key] = value\<close>.
\<close>

definition cleanup_item :: "string \<times> pyval \<Rightarrow> (string \<times> pyval) option" where
  "cleanup_item kv = (case kv of (key, val) \<Rightarrow>
     if val = PNone then None
     else if key = ''retired'' \<and> \<not> truthy val then None
     else if key = ''is_active'' \<and> truthy val then None
     else if key = ''extras'' then
       (if \<not> truthy val then None
        else (case val of
                PDict extras \<Rightarrow>
                  if list_ex is_private extras
                  then Some (key, PDict (filter (\<lambda>e. \<not> is_private e) extras))
                  else Some (key, val)
              | _ \<Rightarrow> Some (key, val)))
     else Some (key, val))"

text \<open>
  The keys of \<^verbatim>\<open>fields\<close> are distinct, so every \<^verbatim>\<open>result[key] = value\<close> adds a new key
  at the end of \<^verbatim>\<open>result\<close>.
\<close>

definition cleanup :: "pyval \<Rightarrow> pyval" where
  "cleanup fields = (case fields of
                       PDict kvs \<Rightarrow> PDict (List.map_filter cleanup_item kvs)
                     | _ \<Rightarrow> fields)"

definition generate_checksum :: "(pyval \<Rightarrow> pyval \<Rightarrow> bool) \<Rightarrow> pyval \<Rightarrow> string" where
  "generate_checksum le data = generate le (cleanup data)"

definition generate_checksum_from_many :: "(pyval \<Rightarrow> pyval \<Rightarrow> bool) \<Rightarrow> pyval \<Rightarrow> string" where
  "generate_checksum_from_many le data =
     (let checksums = (case data of
                         PList ds \<Rightarrow> map (\<lambda>d. generate le (cleanup d)) ds
                       | _ \<Rightarrow> [generate le (cleanup data)])
      in case checksums of
           [c] \<Rightarrow> c
         | _ \<Rightarrow> generate le (PList (map PStr checksums)))"

text \<open>The tests \<^verbatim>\<open>isinstance(obj, list) and len(obj) == 1\<close>, \<^verbatim>\<open>isinstance(data, list)\<close>
  and \<^verbatim>\<open>isinstance(fields, dict)\<close>.\<close>

fun single_list :: "pyval \<Rightarrow> bool" where
  "single_list (PList [x]) = True"
| "single_list v = False"

fun is_list :: "pyval \<Rightarrow> bool" where
  "is_list (PList xs) = True"
| "is_list v = False"

fun is_dict :: "pyval \<Rightarrow> bool" where
  "is_dict (PDict kvs) = True"
| "is_dict v = False"

section \<open>ChecksumModel: the cached checksums of a resource\<close>

definition STANDARD_CHECKSUM_KEY :: string where
  "STANDARD_CHECKSUM_KEY = ''standard''"

definition SMART_CHECKSUM_KEY :: string where
  "SMART_CHECKSUM_KEY = ''smart''"

text \<open>
  A model instance: the attribute \<^verbatim>\<open>checksums\<close> (a nullable JSON field holding a dict), the
  same column as the database row stores it, the mappings that
  \<^verbatim>\<open>get_standard_checksum_fields\<close> and \<^verbatim>\<open>get_smart_checksum_fields\<close> return for the
  instance (the latter is \<^verbatim>\<open>{}\<close> unless a resource type overrides it), and the number of
  recalculation tasks handed to the task queue. \<^verbatim>\<open>Toggle.get('CHECKSUMS_TOGGLE')\<close> is the
  argument \<open>toggle\<close> of every operation.
\<close>

record checksum_model =
  checksums :: "pydict option"
  stored_checksums :: "pydict option"
  standard_fields :: pyval
  smart_fields :: pyval
  queued :: nat

text \<open>\<^verbatim>\<open>key in self.checksums\<close> raises on \<^verbatim>\<open>None\<close>.\<close>

definition has_key :: "pydict option \<Rightarrow> string \<Rightarrow> py_error + bool" where
  "has_key d k = (case d of None \<Rightarrow> Inl TypeError | Some kvs \<Rightarrow> Inr (k \<in> set (map fst kvs)))"

definition has_standard_checksum :: "checksum_model \<Rightarrow> py_error + bool" where
  "has_standard_checksum m =
     (if STANDARD_CHECKSUM_KEY \<noteq> [] then has_key (checksums m) STANDARD_CHECKSUM_KEY else Inr True)"

definition has_smart_checksum :: "checksum_model \<Rightarrow> py_error + bool" where
  "has_smart_checksum m =
     (if SMART_CHECKSUM_KEY \<noteq> [] then has_key (checksums m) SMART_CHECKSUM_KEY else Inr True)"

definition has_all_checksums :: "checksum_model \<Rightarrow> py_error + bool" where
  "has_all_checksums m =
     (case has_standard_checksum m of
        Inl e \<Rightarrow> Inl e
      | Inr b \<Rightarrow> if b then has_smart_checksum m else Inr False)"

definition calculate_standard_checksum :: "(pyval \<Rightarrow> pyval \<Rightarrow> bool) \<Rightarrow> checksum_model \<Rightarrow> pyval" where
  "calculate_standard_checksum le m =
     (let fields = standard_fields m
      in if fields = PNone then PNone else PStr (generate_checksum le fields))"

definition calculate_smart_checksum :: "(pyval \<Rightarrow> pyval \<Rightarrow> bool) \<Rightarrow> checksum_model \<Rightarrow> pyval" where
  "calculate_smart_checksum le m =
     (let fields = smart_fields m
      in if truthy fields then PStr (generate_checksum le fields) else PNone)"

definition get_all_checksums ::
  "(pyval \<Rightarrow> pyval \<Rightarrow> bool) \<Rightarrow> bool \<Rightarrow> checksum_model \<Rightarrow> pydict option" where
  "get_all_checksums le toggle m =
     (if toggle then
        (let c0 = [];
             c1 = (if STANDARD_CHECKSUM_KEY \<noteq> []
                   then dict_set c0 STANDARD_CHECKSUM_KEY (calculate_standard_checksum le m) else c0);
             c2 = (if SMART_CHECKSUM_KEY \<noteq> []
                   then dict_set c1 SMART_CHECKSUM_KEY (calculate_smart_checksum le m) else c1)
         in Some c2)
      else None)"

definition calculate_checksums ::
  "(pyval \<Rightarrow> pyval \<Rightarrow> bool) \<Rightarrow> bool \<Rightarrow> checksum_model \<Rightarrow> pydict option" where
  "calculate_checksums le toggle m = get_all_checksums le toggle m"

text \<open>\<^verbatim>\<open>self.save(update_fields=['checksums'])\<close> writes the attribute to the row.\<close>

definition save_checksums :: "checksum_model \<Rightarrow> checksum_model" where
  "save_checksums m = m\<lparr>stored_checksums := checksums m\<rparr>"

definition set_checksums :: "(pyval \<Rightarrow> pyval \<Rightarrow> bool) \<Rightarrow> bool \<Rightarrow> checksum_model \<Rightarrow> checksum_model" where
  "set_checksums le toggle m =
     (if toggle then save_checksums (m\<lparr>checksums := calculate_checksums le toggle m\<rparr>) else m)"

text \<open>
  \<^verbatim>\<open>queue_checksum_calculation\<close> outside test mode: the task goes to the queue by
  \<^verbatim>\<open>apply_async\<close> and the instance is not touched. (In test mode the task, which is not
  among the sources, runs at once.)
\<close>

definition queue_checksum_calculation :: "checksum_model \<Rightarrow> checksum_model" where
  "queue_checksum_calculation m = m\<lparr>queued := Suc (queued m)\<rparr>"

text \<open>Truthiness of \<^verbatim>\<open>self.checksums\<close>, and \<^verbatim>\<open>self.checksums or {}\<close>.\<close>

definition dict_truthy :: "pydict option \<Rightarrow> bool" where
  "dict_truthy d = (case d of None \<Rightarrow> False | Some kvs \<Rightarrow> kvs \<noteq> [])"

definition or_empty :: "pydict option \<Rightarrow> pydict" where
  "or_empty d = (case d of None \<Rightarrow> [] | Some kvs \<Rightarrow> if kvs \<noteq> [] then kvs else [])"

definition get_checksums ::
  "(pyval \<Rightarrow> pyval \<Rightarrow> bool) \<Rightarrow> bool \<Rightarrow> bool \<Rightarrow> bool \<Rightarrow> checksum_model
     \<Rightarrow> py_error + (pydict option \<times> checksum_model)" where
  "get_checksums le toggle queue recalculate m =
     (if toggle then
        (case (if \<not> recalculate \<and> dict_truthy (checksums m) then has_all_checksums m
               else Inr False) of
           Inl e \<Rightarrow> Inl e
         | Inr complete \<Rightarrow>
             if complete then Inr (checksums m, m)
             else if queue then
               (let m' = queue_checksum_calculation m in Inr (Some (or_empty (checksums m')), m'))
             else
               (let m' = set_checksums le toggle m in Inr (checksums m', m')))
      else Inr (None, m))"

text \<open>\<^verbatim>\<open>get(self, 'checksums.<key>')\<close> of pydash and \<^verbatim>\<open>self.checksums.get(key)\<close>: the value
  or \<^verbatim>\<open>None\<close>; the second raises when \<^verbatim>\<open>self.checksums\<close> is \<^verbatim>\<open>None\<close>.\<close>

definition dict_get :: "pydict \<Rightarrow> string \<Rightarrow> pyval" where
  "dict_get kvs k = (case map_of kvs k of None \<Rightarrow> PNone | Some v \<Rightarrow> v)"

definition path_get :: "pydict option \<Rightarrow> string \<Rightarrow> pyval" where
  "path_get d k = (case d of None \<Rightarrow> PNone | Some kvs \<Rightarrow> dict_get kvs k)"

definition checksum ::
  "(pyval \<Rightarrow> pyval \<Rightarrow> bool) \<Rightarrow> bool \<Rightarrow> checksum_model \<Rightarrow> py_error + (pyval \<times> checksum_model)" where
  "checksum le toggle m =
     (if toggle then
        (if truthy (path_get (checksums m) STANDARD_CHECKSUM_KEY)
         then Inr (path_get (checksums m) STANDARD_CHECKSUM_KEY, m)
         else (case get_checksums le toggle False False m of
                 Inl e \<Rightarrow> Inl e
               | Inr (_, m') \<Rightarrow>
                   (case checksums m' of
                      None \<Rightarrow> Inl AttributeError
                    | Some kvs \<Rightarrow> Inr (dict_get kvs STANDARD_CHECKSUM_KEY, m'))))
      else Inr (PNone, m))"

section \<open>ChecksumDiff: two collections of resources compared\<close>

text \<open>
  A resource as the differ reads it: the value of the attribute named by \<^verbatim>\<open>identity\<close>
  (\<^verbatim>\<open>get(resource, self.identity)\<close>), its \<^verbatim>\<open>checksums\<close>, its \<^verbatim>\<open>id\<close> and its \<^verbatim>\<open>retired\<close> flag.
  A collection is a list; \<^verbatim>\<open>resources.filter(retired=False)\<close> keeps the resources whose
  flag is false. A snapshot map takes an identity key to \<^verbatim>\<open>{'checksums': ..., 'id': ...}\<close>.
\<close>

record resource =
  ident :: string
  res_checksums :: "pydict option"
  res_id :: int
  res_retired :: bool

record info =
  info_checksums :: "pydict option"
  info_id :: int

type_synonym resource_map = "(string \<times> info) list"

record resources_maps =
  active_map :: resource_map
  retired_map :: resource_map

text \<open>
  The differ. A Python set of keys is a duplicate-free list; Python does not fix the order
  in which a set is iterated, the model takes the order of the left operand. The fields
  \<open>memo_*\<close> are the attributes \<^verbatim>\<open>_resources1_map\<close>, ..., \<^verbatim>\<open>_retired\<close>, with \<open>None\<close> for
  \<^verbatim>\<open>None\<close>. They are written by the properties below only, so a memoized key set holds
  keys of its map, and a lookup \<^verbatim>\<open>map[key]\<close> of a key taken from such a set finds it.
\<close>

record checksum_diff =
  resources1 :: "resource list"
  resources2 :: "resource list"
  identity :: string
  verbosity :: int
  same :: resource_map
  same_smart :: resource_map
  changed_smart :: resource_map
  changed_standard :: resource_map
  result :: pydict
  memo_resources1_map :: "resource_map option"
  memo_resources1_map_retired :: "resource_map option"
  memo_resources2_map :: "resource_map option"
  memo_resources2_map_retired :: "resource_map option"
  memo_resources1_set :: "string list option"
  memo_resources1_set_retired :: "string list option"
  memo_resources2_set :: "string list option"
  memo_resources2_set_retired :: "string list option"
  memo_retired :: "resource_map option"

definition ChecksumDiff :: "resource list \<Rightarrow> resource list \<Rightarrow> string \<Rightarrow> int \<Rightarrow> checksum_diff" where
  "ChecksumDiff rs1 rs2 idn verb =
     \<lparr>resources1 = rs1, resources2 = rs2, identity = idn, verbosity = verb,
      same = [], same_smart = [], changed_smart = [], changed_standard = [], result = [],
      memo_resources1_map = None, memo_resources1_map_retired = None,
      memo_resources2_map = None, memo_resources2_map_retired = None,
      memo_resources1_set = None, memo_resources1_set_retired = None,
      memo_resources2_set = None, memo_resources2_set_retired = None,
      memo_retired = None\<rparr>"

definition get_resource_map :: "resource list \<Rightarrow> resource_map" where
  "get_resource_map rs =
     foldl (\<lambda>m r. dict_set m (ident r) \<lparr>info_checksums = res_checksums r, info_id = res_id r\<rparr>)
       [] rs"

definition get_resources_map :: "resource list \<Rightarrow> resources_maps" where
  "get_resources_map rs =
     \<lparr>active_map = get_resource_map (filter (\<lambda>r. res_retired r = False) rs),
      retired_map = get_resource_map (filter (\<lambda>r. res_retired r = False) rs)\<rparr>"

definition resources1_map :: "checksum_diff \<Rightarrow> resource_map \<times> checksum_diff" where
  "resources1_map d =
     (case memo_resources1_map d of
        Some m \<Rightarrow> (m, d)
      | None \<Rightarrow>
          (let resources_map = get_resources_map (resources1 d)
           in (active_map resources_map,
               d\<lparr>memo_resources1_map := Some (active_map resources_map),
                 memo_resources1_map_retired := Some (retired_map resources_map)\<rparr>)))"

definition resources1_map_retired :: "checksum_diff \<Rightarrow> resource_map \<times> checksum_diff" where
  "resources1_map_retired d =
     (case memo_resources1_map_retired d of
        Some m \<Rightarrow> (m, d)
      | None \<Rightarrow>
          (let resources_map = get_resources_map (resources1 d)
           in (retired_map resources_map,
               d\<lparr>memo_resources1_map := Some (active_map resources_map),
                 memo_resources1_map_retired := Some (retired_map resources_map)\<rparr>)))"

definition resources2_map :: "checksum_diff \<Rightarrow> resource_map \<times> checksum_diff" where
  "resources2_map d =
     (case memo_resources2_map d of
        Some m \<Rightarrow> (m, d)
      | None \<Rightarrow>
          (let resources_map = get_resources_map (resources2 d)
           in (active_map resources_map,
               d\<lparr>memo_resources2_map := Some (active_map resources_map),
                 memo_resources2_map_retired := Some (retired_map resources_map)\<rparr>)))"

definition resources2_map_retired :: "checksum_diff \<Rightarrow> resource_map \<times> checksum_diff" where
  "resources2_map_retired d =
     (case memo_resources2_map_retired d of
        Some m \<Rightarrow> (m, d)
      | None \<Rightarrow>
          (let resources_map = get_resources_map (resources2 d)
           in (retired_map resources_map,
               d\<lparr>memo_resources2_map := Some (active_map resources_map),
                 memo_resources2_map_retired := Some (retired_map resources_map)\<rparr>)))"

text \<open>\<^verbatim>\<open>set(m.keys())\<close>, \<^verbatim>\<open>a - b\<close> and \<^verbatim>\<open>a & b\<close> on key sets.\<close>

definition key_set :: "resource_map \<Rightarrow> string list" where
  "key_set m = remdups (map fst m)"

definition set_minus :: "string list \<Rightarrow> string list \<Rightarrow> string list" where
  "set_minus a b = filter (\<lambda>k. k \<notin> set b) a"

definition set_and :: "string list \<Rightarrow> string list \<Rightarrow> string list" where
  "set_and a b = filter (\<lambda>k. k \<in> set b) a"

definition resources1_set :: "checksum_diff \<Rightarrow> string list \<times> checksum_diff" where
  "resources1_set d =
     (case memo_resources1_set d of
        Some s \<Rightarrow> (s, d)
      | None \<Rightarrow> (case resources1_map d of
                   (m, d1) \<Rightarrow> (key_set m, d1\<lparr>memo_resources1_set := Some (key_set m)\<rparr>)))"

definition resources1_set_retired :: "checksum_diff \<Rightarrow> string list \<times> checksum_diff" where
  "resources1_set_retired d =
     (case memo_resources1_set_retired d of
        Some s \<Rightarrow> (s, d)
      | None \<Rightarrow> (case resources1_map_retired d of
                   (m, d1) \<Rightarrow> (key_set m, d1\<lparr>memo_resources1_set_retired := Some (key_set m)\<rparr>)))"

definition resources2_set :: "checksum_diff \<Rightarrow> string list \<times> checksum_diff" where
  "resources2_set d =
     (case memo_resources2_set d of
        Some s \<Rightarrow> (s, d)
      | None \<Rightarrow> (case resources2_map d of
                   (m, d1) \<Rightarrow> (key_set m, d1\<lparr>memo_resources2_set := Some (key_set m)\<rparr>)))"

definition resources2_set_retired :: "checksum_diff \<Rightarrow> string list \<times> checksum_diff" where
  "resources2_set_retired d =
     (case memo_resources2_set_retired d of
        Some s \<Rightarrow> (s, d)
      | None \<Rightarrow> (case resources2_map_retired d of
                   (m, d1) \<Rightarrow> (key_set m, d1\<lparr>memo_resources2_set_retired := Some (key_set m)\<rparr>)))"

text \<open>
  The comprehension \<^verbatim>\<open>{key: self.<map>[key] for key in keys}\<close>: the property is read once
  for every key.
\<close>

fun collect ::
  "(checksum_diff \<Rightarrow> resource_map \<times> checksum_diff) \<Rightarrow> string list \<Rightarrow> checksum_diff
     \<Rightarrow> resource_map \<times> checksum_diff" where
  "collect prop [] d = ([], d)"
| "collect prop (key # keys) d =
     (case prop d of
        (m, d1) \<Rightarrow>
          (case collect prop keys d1 of
             (rest, d2) \<Rightarrow>
               ((case map_of m key of Some v \<Rightarrow> [(key, v)] | None \<Rightarrow> []) @ rest, d2)))"

definition new :: "checksum_diff \<Rightarrow> resource_map \<times> checksum_diff" where
  "new d =
     (case resources1_set d of
        (s1, d1) \<Rightarrow>
          (case resources2_set d1 of
             (s2, d2) \<Rightarrow> collect resources1_map (set_minus s1 s2) d2))"

definition retired :: "checksum_diff \<Rightarrow> resource_map \<times> checksum_diff" where
  "retired d =
     (case memo_retired d of
        Some r \<Rightarrow> (r, d)
      | None \<Rightarrow>
          (case resources2_set_retired d of
             (s2, d1) \<Rightarrow>
               (case resources1_set_retired d1 of
                  (s1, d2) \<Rightarrow>
                    (case collect resources2_map_retired (set_minus s2 s1) d2 of
                       (r, d3) \<Rightarrow> (r, d3\<lparr>memo_retired := Some r\<rparr>)))))"

text \<open>The comprehension of \<^verbatim>\<open>deleted\<close>, with its filter \<^verbatim>\<open>if key not in self.retired\<close>.\<close>

fun deleted_loop :: "string list \<Rightarrow> checksum_diff \<Rightarrow> resource_map \<times> checksum_diff" where
  "deleted_loop [] d = ([], d)"
| "deleted_loop (key # keys) d =
     (case retired d of
        (r, d1) \<Rightarrow>
          if key \<notin> set (map fst r) then
            (case resources2_map d1 of
               (m, d2) \<Rightarrow>
                 (case deleted_loop keys d2 of
                    (rest, d3) \<Rightarrow>
                      ((case map_of m key of Some v \<Rightarrow> [(key, v)] | None \<Rightarrow> []) @ rest, d3)))
          else deleted_loop keys d1)"

definition deleted :: "checksum_diff \<Rightarrow> resource_map \<times> checksum_diff" where
  "deleted d =
     (case resources2_set d of
        (s2, d1) \<Rightarrow>
          (case resources1_set d1 of
             (s1, d2) \<Rightarrow> deleted_loop (set_minus s2 s1) d2))"

definition common :: "checksum_diff \<Rightarrow> resource_map \<times> checksum_diff" where
  "common d =
     (case resources1_set d of
        (s1, d1) \<Rightarrow>
          (case resources2_set d1 of
             (s2, d2) \<Rightarrow> collect resources1_map (set_and s1 s2) d2))"

definition is_verbose :: "checksum_diff \<Rightarrow> bool" where
  "is_verbose d = (verbosity d \<ge> 1)"

definition is_very_verbose :: "checksum_diff \<Rightarrow> bool" where
  "is_very_verbose d = (verbosity d = 2)"

definition include_same :: "checksum_diff \<Rightarrow> bool" where
  "include_same d = is_verbose d"

text \<open>\<^verbatim>\<open>checksums['standard']\<close>: raises on \<^verbatim>\<open>None\<close> and on a missing key.\<close>

definition subscript :: "pydict option \<Rightarrow> string \<Rightarrow> py_error + pyval" where
  "subscript d k =
     (case d of
        None \<Rightarrow> Inl TypeError
      | Some kvs \<Rightarrow> (case map_of kvs k of None \<Rightarrow> Inl KeyError | Some v \<Rightarrow> Inr v))"

definition lookup_info :: "resource_map \<Rightarrow> string \<Rightarrow> py_error + info" where
  "lookup_info m k = (case map_of m k of None \<Rightarrow> Inl KeyError | Some i \<Rightarrow> Inr i)"

text \<open>One round of the loop of \<^verbatim>\<open>populate_diff_from_common\<close>.\<close>

definition populate_item ::
  "resource_map \<Rightarrow> resource_map \<Rightarrow> checksum_diff \<Rightarrow> string \<times> info \<Rightarrow> py_error + checksum_diff" where
  "populate_item rmap1 rmap2 d item = (case item of (key, entry) \<Rightarrow>
     (case lookup_info rmap1 key of Inl e \<Rightarrow> Inl e | Inr i1 \<Rightarrow>
     (case lookup_info rmap2 key of Inl e \<Rightarrow> Inl e | Inr i2 \<Rightarrow>
     (case subscript (info_checksums i1) ''standard'' of Inl e \<Rightarrow> Inl e | Inr std1 \<Rightarrow>
     (case subscript (info_checksums i2) ''standard'' of Inl e \<Rightarrow> Inl e | Inr std2 \<Rightarrow>
     (let d1 = (if std1 \<noteq> std2
                then d\<lparr>changed_standard := dict_set (changed_standard d) key entry\<rparr>
                else if include_same d then d\<lparr>same := dict_set (same d) key entry\<rparr>
                else d)
      in (case subscript (info_checksums i1) ''smart'' of Inl e \<Rightarrow> Inl e | Inr smart1 \<Rightarrow>
         (case subscript (info_checksums i2) ''smart'' of Inl e \<Rightarrow> Inl e | Inr smart2 \<Rightarrow>
         Inr (if smart1 \<noteq> smart2
              then d1\<lparr>changed_smart := dict_set (changed_smart d1) key entry\<rparr>
              else if include_same d1
                   then d1\<lparr>same_smart := dict_set (same_smart d1) key entry\<rparr>
              else d1)))))))))"

fun populate_loop ::
  "resource_map \<Rightarrow> resource_map \<Rightarrow> (string \<times> info) list \<Rightarrow> checksum_diff
     \<Rightarrow> py_error + checksum_diff" where
  "populate_loop rmap1 rmap2 [] d = Inr d"
| "populate_loop rmap1 rmap2 (item # items) d =
     (case populate_item rmap1 rmap2 d item of
        Inl e \<Rightarrow> Inl e
      | Inr d' \<Rightarrow> populate_loop rmap1 rmap2 items d')"

definition populate_diff_from_common :: "checksum_diff \<Rightarrow> py_error + checksum_diff" where
  "populate_diff_from_common d =
     (case common d of
        (com, d1) \<Rightarrow>
          (case resources1_map d1 of
             (rmap1, d2) \<Rightarrow>
               (case resources2_map d2 of
                  (rmap2, d3) \<Rightarrow> populate_loop rmap1 rmap2 com d3)))"

definition get_struct :: "checksum_diff \<Rightarrow> resource_map \<Rightarrow> pyval" where
  "get_struct d vals =
     (let total = int (length vals)
      in if is_very_verbose d then
           (if vals \<noteq> []
            then PDict (dict_set [(''total'', PInt total)] (identity d)
                          (PList (map (\<lambda>kv. PStr (fst kv)) vals)))
            else PInt total)
         else PInt total)"

definition prepare :: "checksum_diff \<Rightarrow> checksum_diff" where
  "prepare d =
     (case new d of
        (n, d1) \<Rightarrow>
          (case deleted d1 of
             (del, d2) \<Rightarrow>
               (case retired d2 of
                  (ret, d3) \<Rightarrow>
                    (let r0 = [(''new'', get_struct d3 n),
                               (''removed'', get_struct d3 del),
                               (''retired'', get_struct d3 ret),
                               (''changed'', get_struct d3 (changed_standard d3)),
                               (''smart_changed'', get_struct d3 (changed_smart d3))];
                         r1 = (if include_same d3
                               then dict_set (dict_set r0 ''same'' (get_struct d3 (same d3)))
                                      ''smart_same'' (get_struct d3 (same_smart d3))
                               else r0)
                     in d3\<lparr>result := r1\<rparr>))))"

definition process :: "bool \<Rightarrow> checksum_diff \<Rightarrow> py_error + (pydict \<times> checksum_diff)" where
  "process refresh d =
     (let d0 = (if refresh then d\<lparr>result := []\<rparr> else d)
      in if result d0 \<noteq> [] then Inr (result d0, d0)
         else (case populate_diff_from_common d0 of
                 Inl e \<Rightarrow> Inl e
               | Inr d1 \<Rightarrow> (let d2 = prepare d1 in Inr (result d2, d2))))"

text \<open>
  Scenario A of the spec (section 8): side 1 holds the active resources \<open>a\<close> and \<open>b\<close>,
  side 2 the active resources \<open>a\<close> and \<open>c\<close>, and \<open>a\<close> has the same checksums on both
  sides.
\<close>

definition scenario_a :: "int \<Rightarrow> checksum_diff" where
  "scenario_a verb = ChecksumDiff
      [\<lparr>ident = ''a'', res_checksums = Some [(''standard'', PStr ''h1''), (''smart'', PStr ''s1'')],
        res_id = 1, res_retired = False\<rparr>,
       \<lparr>ident = ''b'', res_checksums = Some [(''standard'', PStr ''h2''), (''smart'', PStr ''s2'')],
        res_id = 2, res_retired = False\<rparr>]
      [\<lparr>ident = ''a'', res_checksums = Some [(''standard'', PStr ''h1''), (''smart'', PStr ''s1'')],
        res_id = 3, res_retired = False\<rparr>,
       \<lparr>ident = ''c'', res_checksums = Some [(''standard'', PStr ''h3''), (''smart'', PStr ''s3'')],
        res_id = 4, res_retired = False\<rparr>]
      ''mnemonic'' verb"

section \<open>Auxiliary notions for the proofs about the differ\<close>

text \<open>
  These are not in the source. \<open>pick m keys\<close> is the dict a comprehension
  \<^verbatim>\<open>{key: m[key] for key in keys}\<close> builds from a memoized map. \<open>item_checksums\<close> collects the
  four checksums one round of \<^verbatim>\<open>populate_diff_from_common\<close> reads, \<open>mark_standard\<close> and
  \<open>mark_smart\<close> are its two \<^verbatim>\<open>if\<close>/\<^verbatim>\<open>elif\<close> statements, and \<open>marked\<close> says that the
  buckets already hold what these statements would store.
\<close>

definition pick :: "resource_map \<Rightarrow> string list \<Rightarrow> resource_map" where
  "pick m keys = concat (map (\<lambda>k. case map_of m k of Some v \<Rightarrow> [(k, v)] | None \<Rightarrow> []) keys)"

definition item_checksums ::
  "resource_map \<Rightarrow> resource_map \<Rightarrow> string \<Rightarrow> py_error + (pyval \<times> pyval \<times> pyval \<times> pyval)" where
  "item_checksums m1 m2 k =
     (case lookup_info m1 k of Inl e \<Rightarrow> Inl e | Inr i1 \<Rightarrow>
     (case lookup_info m2 k of Inl e \<Rightarrow> Inl e | Inr i2 \<Rightarrow>
     (case subscript (info_checksums i1) ''standard'' of Inl e \<Rightarrow> Inl e | Inr std1 \<Rightarrow>
     (case subscript (info_checksums i2) ''standard'' of Inl e \<Rightarrow> Inl e | Inr std2 \<Rightarrow>
     (case subscript (info_checksums i1) ''smart'' of Inl e \<Rightarrow> Inl e | Inr smart1 \<Rightarrow>
     (case subscript (info_checksums i2) ''smart'' of Inl e \<Rightarrow> Inl e | Inr smart2 \<Rightarrow>
      Inr (std1, std2, smart1, smart2)))))))"

definition mark_standard :: "bool \<Rightarrow> string \<Rightarrow> info \<Rightarrow> checksum_diff \<Rightarrow> checksum_diff" where
  "mark_standard differs key entry d =
     (if differs then d\<lparr>changed_standard := dict_set (changed_standard d) key entry\<rparr>
      else if include_same d then d\<lparr>same := dict_set (same d) key entry\<rparr>
      else d)"

definition mark_smart :: "bool \<Rightarrow> string \<Rightarrow> info \<Rightarrow> checksum_diff \<Rightarrow> checksum_diff" where
  "mark_smart differs key entry d =
     (if differs then d\<lparr>changed_smart := dict_set (changed_smart d) key entry\<rparr>
      else if include_same d then d\<lparr>same_smart := dict_set (same_smart d) key entry\<rparr>
      else d)"

definition mark :: "pyval \<times> pyval \<times> pyval \<times> pyval \<Rightarrow> string \<Rightarrow> info \<Rightarrow> checksum_diff \<Rightarrow> checksum_diff" where
  "mark cs key entry d = (case cs of (std1, std2, smart1, smart2) \<Rightarrow>
      mark_smart (smart1 \<noteq> smart2) key entry (mark_standard (std1 \<noteq> std2) key entry d))"

definition marked_standard :: "bool \<Rightarrow> string \<Rightarrow> info \<Rightarrow> checksum_diff \<Rightarrow> bool" where
  "marked_standard differs k i d =
     (if differs then map_of (changed_standard d) k = Some i
      else if include_same d then map_of (same d) k = Some i else True)"

definition marked_smart :: "bool \<Rightarrow> string \<Rightarrow> info \<Rightarrow> checksum_diff \<Rightarrow> bool" where
  "marked_smart differs k i d =
     (if differs then map_of (changed_smart d) k = Some i
      else if include_same d then map_of (same_smart d) k = Some i else True)"

definition marked :: "pyval \<times> pyval \<times> pyval \<times> pyval \<Rightarrow> string \<Rightarrow> info \<Rightarrow> checksum_diff \<Rightarrow> bool" where
  "marked cs k i d = (case cs of (std1, std2, smart1, smart2) \<Rightarrow>
     marked_standard (std1 \<noteq> std2) k i d \<and> marked_smart (smart1 \<noteq> smart2) k i d)"

section \<open>Properties of the serializer\<close>

lemma set_place: "set (place le x ys) = insert x (set ys)"
  by (induction ys) auto

lemma set_generic_sort: "set (generic_sort le xs) = set xs"
  by (induction xs) (auto simp: set_place)

lemma distinct_place: "distinct (place le x ys) \<longleftrightarrow> x \<notin> set ys \<and> distinct ys"
  by (induction ys) (auto simp: set_place)

lemma distinct_generic_sort: "distinct (generic_sort le xs) \<longleftrightarrow> distinct xs"
  by (induction xs) (auto simp: distinct_place set_generic_sort)

lemma sorted_place:
  assumes "total_order le" "sorted_wrt le ys"
  shows "sorted_wrt le (place le x ys)"
  using assms(2)
proof (induction ys)
  case Nil
  show ?case by simp
next
  case (Cons y ys)
  show ?case
  proof (cases "le x y")
    case True
    have "le x z" if "z \<in> set ys" for z
    proof -
      from Cons.prems that have "le y z" by simp
      with True assms(1) show ?thesis unfolding total_order_def by blast
    qed
    with True Cons.prems show ?thesis by simp
  next
    case False
    with assms(1) have "le y x" unfolding total_order_def by blast
    with False Cons show ?thesis by (auto simp: set_place)
  qed
qed

lemma sorted_generic_sort: "total_order le \<Longrightarrow> sorted_wrt le (generic_sort le xs)"
  by (induction xs) (simp_all add: sorted_place)

text \<open>Under a total order a set of values has one sorted arrangement.\<close>

lemma sorted_distinct_unique:
  assumes "total_order le"
  shows "sorted_wrt le xs \<Longrightarrow> sorted_wrt le ys \<Longrightarrow> distinct xs \<Longrightarrow> distinct ys
           \<Longrightarrow> set xs = set ys \<Longrightarrow> xs = ys"
proof (induction xs arbitrary: ys)
  case Nil
  then show ?case by simp
next
  case (Cons x xs)
  from Cons.prems(5) obtain y ys' where ys: "ys = y # ys'"
    by (cases ys) auto
  have "x = y"
  proof (rule ccontr)
    assume ne: "x \<noteq> y"
    with Cons.prems(5) ys have "x \<in> set ys'" "y \<in> set xs" by auto
    with Cons.prems(1,2) ys have "le y x" "le x y" by auto
    with assms ne show False unfolding total_order_def by blast
  qed
  moreover from Cons.prems ys \<open>x = y\<close> have "set xs = set ys'" by auto
  ultimately show ?case using Cons.IH [of ys'] Cons.prems ys by simp
qed

lemma generic_sort_unique:
  assumes "total_order le" "distinct xs" "distinct ys" "set xs = set ys"
  shows "generic_sort le xs = generic_sort le ys"
  using assms
  by (intro sorted_distinct_unique [OF assms(1)])
     (simp_all add: sorted_generic_sort distinct_generic_sort set_generic_sort)

lemma total_order_tag_le_keys: "total_order (key_le tag_le)"
  unfolding total_order_def key_le_def by auto

text \<open>
  C3: two mappings with the same key/value pairs, inserted in any two orders, serialize to
  the same string, provided the order \<^verbatim>\<open>generic_sort\<close> sorts by is a total order on keys.
\<close>

theorem serialize_insertion_order_independent:
  assumes "total_order (key_le le)"
    and "distinct (map fst m1)" and "distinct (map fst m2)" and "set m1 = set m2"
  shows "serialize le (PDict m1) = serialize le (PDict m2)"
proof -
  from assms(4) have "set (map fst m1) = set (map fst m2)" by simp
  with assms have keys:
    "generic_sort (key_le le) (map fst m1) = generic_sort (key_le le) (map fst m2)"
    by (intro generic_sort_unique)
  from assms(2,3,4) have "map_of m1 = map_of m2"
    by (simp add: map_of_inject_set)
  with keys show ?thesis by simp
qed

theorem serialize_insertion_order_independent_witness:
  "total_order (key_le tag_le) \<and>
   distinct (map fst [(''b'', PInt 2), (''a'', PInt 1)]) \<and>
   distinct (map fst [(''a'', PInt 1), (''b'', PInt 2)]) \<and>
   set [(''b'', PInt 2), (''a'', PInt 1)] = set [(''a'', PInt 1), (''b'', PInt 2)] \<and>
   serialize tag_le (PDict [(''b'', PInt 2), (''a'', PInt 1)]) =
   serialize tag_le (PDict [(''a'', PInt 1), (''b'', PInt 2)])"
proof -
  have s: "set [(''b'', PInt 2), (''a'', PInt 1)] = set [(''a'', PInt 1), (''b'', PInt 2)]"
    by auto
  have d1: "distinct (map fst [(''b'', PInt 2), (''a'', PInt 1)])" by simp
  have d2: "distinct (map fst [(''a'', PInt 1), (''b'', PInt 2)])" by simp
  from serialize_insertion_order_independent [OF total_order_tag_le_keys d1 d2 s]
    total_order_tag_le_keys d1 d2 s
  show ?thesis by blast
qed

text \<open>
  C7 as stated, \<^verbatim>\<open>serialize([x]) == serialize(x)\<close> for every value \<open>x\<close>, fails when \<open>x\<close> is
  itself a one-element list: \<^verbatim>\<open>_serialize\<close> unwraps once and then treats the value it finds
  as a list, so \<^verbatim>\<open>[[1]]\<close> serializes to \<^verbatim>\<open>[1]\<close> while \<^verbatim>\<open>[1]\<close> serializes to \<^verbatim>\<open>1\<close>.
\<close>

theorem serialize_nested_singleton_differs:
  "serialize tag_le (PList [PList [PInt 1]]) = ''[1]'' \<and>
   serialize tag_le (PList [PInt 1]) = ''1'' \<and>
   serialize tag_le (PList [PList [PInt 1]]) \<noteq> serialize tag_le (PList [PInt 1])"
  by code_simp

text \<open>
  C7, amended: for every value \<open>x\<close> that is not itself a one-element list, the one-element
  list \<^verbatim>\<open>[x]\<close> serializes to the same string as \<open>x\<close>, whatever order the sort uses.
\<close>

theorem serialize_singleton_unwrap:
  "\<not> single_list x \<Longrightarrow> serialize le (PList [x]) = serialize le x"
  by (cases x rule: single_list.cases) simp_all

theorem serialize_singleton_unwrap_witness:
  "\<not> single_list (PDict [(''a'', PInt 1)]) \<and>
   serialize tag_le (PList [PDict [(''a'', PInt 1)]]) = serialize tag_le (PDict [(''a'', PInt 1)])"
  using serialize_singleton_unwrap [of "PDict [(''a'', PInt 1)]" tag_le] by simp

section \<open>Digests\<close>

text \<open>The MD5 model against a test vector of RFC 1321: the digest of \<^verbatim>\<open>abc\<close>.\<close>

lemma md5_test_vector:
  "md5_hexdigest (encode_utf8 ''abc'') = ''900150983cd24fb0d6963f7d28e17f72''"
  by code_simp

text \<open>
  The MD5 digests of \<^verbatim>\<open>{[]}\<close>, \<^verbatim>\<open>{["a"]null,}\<close> and \<^verbatim>\<open>{["extras"]{[]},}\<close>, the
  serializations of \<^verbatim>\<open>{}\<close>, \<^verbatim>\<open>{'a': None}\<close> and \<^verbatim>\<open>{'extras': {}}\<close>.
\<close>

lemma digest_empty_dict:
  "generate tag_le (PDict []) = ''6ced9e9da9f6a651567b0b0b679ebd13''"
  by code_simp

lemma digest_null_field:
  "generate tag_le (PDict [(''a'', PNone)]) = ''ac3f7bf7e3bf11e6719355702ea68672''"
  by code_simp

lemma digest_empty_extras:
  "generate tag_le (PDict [(''extras'', PDict [])]) = ''fb111204aec5bc0f5f845f83065ecb0d''"
  by code_simp

section \<open>Properties of cleanup and of the static checksum functions\<close>

lemma map_filter_append:
  "List.map_filter f (xs @ ys) = List.map_filter f xs @ List.map_filter f ys"
  by (simp add: List.map_filter_def)

lemma map_filter_mem: "y \<in> set (List.map_filter f xs) \<longleftrightarrow> (\<exists>x \<in> set xs. f x = Some y)"
  by (induction xs) (auto split: option.splits)

lemma cleanup_dict: "cleanup (PDict kvs) = PDict (List.map_filter cleanup_item kvs)"
  by (simp add: cleanup_def)

lemma cleanup_non_dict: "\<not> is_dict x \<Longrightarrow> cleanup x = x"
  by (cases x) (simp_all add: cleanup_def)

lemma filter_none_private: "\<not> list_ex P xs \<Longrightarrow> filter (\<lambda>e. \<not> P e) xs = xs"
  by (induction xs) auto

lemma cleanup_item_plain:
  "k \<notin> {''retired'', ''is_active'', ''extras''} \<Longrightarrow> v \<noteq> PNone \<Longrightarrow>
   cleanup_item (k, v) = Some (k, v)"
  by (simp add: cleanup_item_def)

lemma cleanup_item_extras:
  "items \<noteq> [] \<Longrightarrow>
   cleanup_item (''extras'', PDict items) =
     Some (''extras'', PDict (filter (\<lambda>e. \<not> is_private e) items))"
  by (simp add: cleanup_item_def filter_none_private)

lemma cleanup_item_keeps:
  "cleanup_item (k, v) = Some (k', v') \<Longrightarrow> k \<noteq> ''extras'' \<Longrightarrow> k' = k \<and> v' = v"
  by (auto simp: cleanup_item_def split: if_splits)

lemma cleanup_item_key: "cleanup_item (k, v) = Some (k', v') \<Longrightarrow> k' = k"
  by (auto simp: cleanup_item_def split: if_splits pyval.splits)

lemma cleanup_drop_item:
  "cleanup_item kv = None \<Longrightarrow> cleanup (PDict (xs @ kv # ys)) = cleanup (PDict (xs @ ys))"
  by (simp add: cleanup_dict map_filter_append)

lemma cleanup_same_item:
  "cleanup_item kv = cleanup_item kv' \<Longrightarrow>
   cleanup (PDict (xs @ kv # ys)) = cleanup (PDict (xs @ kv' # ys))"
  by (simp add: cleanup_dict map_filter_append)

lemma cleanup_item_private_extra:
  assumes "startswith k ''__''" "es @ fs \<noteq> []"
  shows "cleanup_item (''extras'', PDict (es @ (k, v) # fs)) =
         cleanup_item (''extras'', PDict (es @ fs))"
proof -
  have p: "is_private (k, v)" using assms(1) by (simp add: is_private_def)
  have l: "cleanup_item (''extras'', PDict (es @ (k, v) # fs))
            = Some (''extras'', PDict (filter (\<lambda>e. \<not> is_private e) (es @ fs)))"
    using p by (simp add: cleanup_item_def)
  have r: "cleanup_item (''extras'', PDict (es @ fs))
            = Some (''extras'', PDict (filter (\<lambda>e. \<not> is_private e) (es @ fs)))"
  proof (cases "list_ex is_private (es @ fs)")
    case True
    with assms(2) show ?thesis by (simp add: cleanup_item_def)
  next
    case False
    then have "filter (\<lambda>e. \<not> is_private e) (es @ fs) = es @ fs"
      by (rule filter_none_private)
    with False assms(2) show ?thesis by (simp add: cleanup_item_def)
  qed
  from l r show ?thesis by simp
qed

text \<open>
  C4 as stated fails: \<^verbatim>\<open>generate_checksum_from_many\<close> runs \<^verbatim>\<open>_cleanup\<close> on every value before
  \<^verbatim>\<open>Checksum.generate\<close>. For \<^verbatim>\<open>x = {'a': None}\<close> the one-element list \<^verbatim>\<open>[x]\<close> gets the digest
  of \<^verbatim>\<open>{}\<close>, which is not the digest \<^verbatim>\<open>generate(x)\<close>.
\<close>

theorem generate_from_many_cleans_first:
  "generate_checksum_from_many tag_le (PList [PDict [(''a'', PNone)]]) \<noteq>
   generate tag_le (PDict [(''a'', PNone)])"
proof -
  have "cleanup (PDict [(''a'', PNone)]) = PDict []"
    by (simp add: cleanup_dict cleanup_item_def)
  then have "generate_checksum_from_many tag_le (PList [PDict [(''a'', PNone)]]) =
             generate tag_le (PDict [])"
    by (simp add: generate_checksum_from_many_def)
  then show ?thesis
    by (simp add: digest_empty_dict digest_null_field)
qed

text \<open>
  C4, amended: \<^verbatim>\<open>generate_checksum_from_many\<close> applied to a value \<open>x\<close> that is not a list, or to
  the one-element list \<^verbatim>\<open>[x]\<close> of any value, returns \<^verbatim>\<open>generate(cleanup(x))\<close>; applied to
  \<^verbatim>\<open>[x, y]\<close> it returns \<^verbatim>\<open>generate\<close> of the list of the two digests \<^verbatim>\<open>generate(cleanup(x))\<close> and
  \<^verbatim>\<open>generate(cleanup(y))\<close>, whether or not \<open>x\<close> and \<open>y\<close> differ. For values that are not
  mappings, cleanup changes nothing and the laws hold with \<^verbatim>\<open>generate(x)\<close> and \<^verbatim>\<open>generate(y)\<close>.
\<close>

theorem generate_checksum_from_many_laws:
  "(\<not> is_list x \<longrightarrow> generate_checksum_from_many le x = generate le (cleanup x)) \<and>
   generate_checksum_from_many le (PList [x]) = generate le (cleanup x) \<and>
   generate_checksum_from_many le (PList [x, y]) =
     generate le (PList [PStr (generate le (cleanup x)), PStr (generate le (cleanup y))]) \<and>
   (\<not> is_dict x \<longrightarrow> generate_checksum_from_many le (PList [x]) = generate le x) \<and>
   (\<not> is_dict x \<and> \<not> is_dict y \<longrightarrow>
      generate_checksum_from_many le (PList [x, y]) =
        generate le (PList [PStr (generate le x), PStr (generate le y)]))"
proof -
  have single: "\<not> is_list x \<Longrightarrow> generate_checksum_from_many le x = generate le (cleanup x)"
    by (cases x) (simp_all add: generate_checksum_from_many_def)
  have one: "generate_checksum_from_many le (PList [x]) = generate le (cleanup x)"
    by (simp add: generate_checksum_from_many_def)
  have two: "generate_checksum_from_many le (PList [x, y]) =
     generate le (PList [PStr (generate le (cleanup x)), PStr (generate le (cleanup y))])"
    by (simp add: generate_checksum_from_many_def)
  from single one two show ?thesis
    by (simp add: cleanup_non_dict)
qed

theorem generate_checksum_from_many_laws_witness:
  "\<not> is_list (PStr ''abc'') \<and> \<not> is_dict (PStr ''abc'') \<and> \<not> is_dict (PInt 7) \<and>
   generate_checksum_from_many tag_le (PStr ''abc'') = generate tag_le (PStr ''abc'') \<and>
   generate_checksum_from_many tag_le (PList [PStr ''abc'']) = generate tag_le (PStr ''abc'') \<and>
   generate_checksum_from_many tag_le (PList [PStr ''abc'', PInt 7]) =
     generate tag_le (PList [PStr (generate tag_le (PStr ''abc'')), PStr (generate tag_le (PInt 7))])"
  using generate_checksum_from_many_laws [of "PStr ''abc''" tag_le "PInt 7"]
  by (simp add: cleanup_def)

text \<open>
  C5 as stated fails in case (d): a mapping whose \<^verbatim>\<open>extras\<close> holds double-underscore keys
  only keeps the field, with the value \<^verbatim>\<open>{}\<close>, while a mapping whose \<^verbatim>\<open>extras\<close> is \<^verbatim>\<open>{}\<close>
  loses the field, because \<^verbatim>\<open>_cleanup\<close> tests the value for emptiness before it strips
  the keys. The two digests differ.
\<close>

theorem private_only_extras_change_checksum:
  "generate_checksum tag_le (PDict [(''extras'', PDict [(''__a'', PInt 1)])]) \<noteq>
   generate_checksum tag_le (PDict [(''extras'', PDict [])])"
proof -
  have a: "cleanup (PDict [(''extras'', PDict [(''__a'', PInt 1)])]) = PDict [(''extras'', PDict [])]"
    by (simp add: cleanup_dict cleanup_item_def is_private_def startswith_def)
  have b: "cleanup (PDict [(''extras'', PDict [])]) = PDict []"
    by (simp add: cleanup_dict cleanup_item_def)
  show ?thesis
    by (simp add: generate_checksum_def a b digest_empty_dict digest_empty_extras)
qed

text \<open>
  C5, amended: \<^verbatim>\<open>generate_checksum\<close> returns the same digest for two field mappings one of
  which is the other with (a) a field whose value is null removed, (b) a field \<^verbatim>\<open>retired\<close>
  with value false removed, (c) a field \<^verbatim>\<open>is_active\<close> with value true removed, or (d) a
  double-underscore key removed from the mapping under \<^verbatim>\<open>extras\<close>, provided that mapping
  keeps at least one key. Mappings that differ in several such places are joined by a chain
  of these steps.
\<close>

theorem generate_checksum_ignores_defaults:
  "generate_checksum le (PDict (xs @ (k, PNone) # ys)) = generate_checksum le (PDict (xs @ ys)) \<and>
   generate_checksum le (PDict (xs @ (''retired'', PBool False) # ys)) =
     generate_checksum le (PDict (xs @ ys)) \<and>
   generate_checksum le (PDict (xs @ (''is_active'', PBool True) # ys)) =
     generate_checksum le (PDict (xs @ ys)) \<and>
   (startswith k' ''__'' \<and> es @ fs \<noteq> [] \<longrightarrow>
      generate_checksum le (PDict (xs @ (''extras'', PDict (es @ (k', v) # fs)) # ys)) =
      generate_checksum le (PDict (xs @ (''extras'', PDict (es @ fs)) # ys)))"
proof -
  have a: "cleanup_item (k, PNone) = None" by (simp add: cleanup_item_def)
  have b: "cleanup_item (''retired'', PBool False) = None" by (simp add: cleanup_item_def)
  have c: "cleanup_item (''is_active'', PBool True) = None" by (simp add: cleanup_item_def)
  have d: "cleanup (PDict (xs @ (''extras'', PDict (es @ (k', v) # fs)) # ys)) =
           cleanup (PDict (xs @ (''extras'', PDict (es @ fs)) # ys))"
    if "startswith k' ''__''" "es @ fs \<noteq> []"
    by (rule cleanup_same_item) (rule cleanup_item_private_extra [OF that])
  show ?thesis
    unfolding generate_checksum_def
    using cleanup_drop_item [OF a, of xs ys] cleanup_drop_item [OF b, of xs ys]
      cleanup_drop_item [OF c, of xs ys] d
    by simp
qed

theorem generate_checksum_ignores_defaults_witness:
  "startswith ''__internal'' ''__'' \<and> [] @ [(''note'', PStr ''y'')] \<noteq> [] \<and>
   generate_checksum tag_le
     (PDict [(''id'', PStr ''c1''),
             (''extras'', PDict [(''__internal'', PStr ''x''), (''note'', PStr ''y'')])]) =
   generate_checksum tag_le
     (PDict [(''id'', PStr ''c1''), (''extras'', PDict [(''note'', PStr ''y'')])]) \<and>
   generate_checksum tag_le (PDict [(''id'', PStr ''c1''), (''is_active'', PBool True)]) =
   generate_checksum tag_le (PDict [(''id'', PStr ''c1'')])"
  using generate_checksum_ignores_defaults [of tag_le "[(''id'', PStr ''c1'')]" "''x''" "[]"
      "''__internal''" "[]" "[(''note'', PStr ''y'')]" "PStr ''x''"]
  by (simp add: startswith_def)

lemma cleanup_item_extras_other:
  "truthy v \<Longrightarrow> \<not> is_dict v \<Longrightarrow> cleanup_item (''extras'', v) = Some (''extras'', v)"
  by (cases v) (auto simp: cleanup_item_def)

text \<open>
  C10: \<^verbatim>\<open>_cleanup\<close> returns a value that is not a mapping as it is, and works on the top
  level of a mapping only. Every field under a key other than \<^verbatim>\<open>retired\<close>, \<^verbatim>\<open>is_active\<close>
  and \<^verbatim>\<open>extras\<close> whose value is not null is in the result with its value as it is: a nested
  mapping, or a list of mappings, keeps its null entries and its \<^verbatim>\<open>retired\<close>, \<^verbatim>\<open>is_active\<close>
  and double-underscore entries. A non-empty mapping under \<^verbatim>\<open>extras\<close> is in the result
  and loses its own double-underscore keys and nothing else, whatever its values hold; any
  other non-empty value under \<^verbatim>\<open>extras\<close> is in the result as it is. And every field of
  the result other than \<^verbatim>\<open>extras\<close> is a field of the input, unchanged.
\<close>

theorem cleanup_top_level_only:
  assumes "cleanup (PDict kvs) = PDict out"
  shows "cleanup (PScalar s) = PScalar s \<and> cleanup (PUUID u) = PUUID u \<and>
     cleanup (PList xs) = PList xs \<and>
     ((k, v0) \<in> set kvs \<and> k \<notin> {''retired'', ''is_active'', ''extras''} \<and> v0 \<noteq> PNone
         \<longrightarrow> (k, v0) \<in> set out) \<and>
     ((''extras'', PDict items) \<in> set kvs \<and> items \<noteq> []
         \<longrightarrow> (''extras'', PDict (filter (\<lambda>e. \<not> is_private e) items)) \<in> set out) \<and>
     ((''extras'', v1) \<in> set kvs \<and> truthy v1 \<and> \<not> is_dict v1
         \<longrightarrow> (''extras'', v1) \<in> set out) \<and>
     ((k', v) \<in> set out \<and> k' \<noteq> ''extras'' \<longrightarrow> (k', v) \<in> set kvs)"
proof -
  from assms have out: "out = List.map_filter cleanup_item kvs"
    by (simp add: cleanup_dict)
  have plain: "cleanup (PScalar s) = PScalar s \<and> cleanup (PUUID u) = PUUID u \<and>
     cleanup (PList xs) = PList xs"
    by (simp add: cleanup_def)
  have nested: "(k, v0) \<in> set out"
    if "(k, v0) \<in> set kvs" "k \<notin> {''retired'', ''is_active'', ''extras''}" "v0 \<noteq> PNone"
  proof -
    have "cleanup_item (k, v0) = Some (k, v0)"
      using that(2,3) by (rule cleanup_item_plain)
    with that(1) show ?thesis unfolding out map_filter_mem by blast
  qed
  have extras: "(''extras'', PDict (filter (\<lambda>e. \<not> is_private e) items)) \<in> set out"
    if "(''extras'', PDict items) \<in> set kvs" "items \<noteq> []"
    using that cleanup_item_extras [of items] unfolding out map_filter_mem by blast
  have extras_other: "(''extras'', v1) \<in> set out"
    if "(''extras'', v1) \<in> set kvs" "truthy v1" "\<not> is_dict v1"
    using that cleanup_item_extras_other [of v1] unfolding out map_filter_mem by blast
  have kept: "(k', v) \<in> set kvs" if "(k', v) \<in> set out" "k' \<noteq> ''extras''"
  proof -
    from that(1) obtain k0 w0 where mem: "(k0, w0) \<in> set kvs"
      and it: "cleanup_item (k0, w0) = Some (k', v)"
      unfolding out map_filter_mem by auto
    from it have "k' = k0" by (rule cleanup_item_key)
    with it that(2) have "v = w0" by (auto dest: cleanup_item_keeps)
    with mem \<open>k' = k0\<close> show ?thesis by simp
  qed
  from plain nested extras extras_other kept show ?thesis by blast
qed

theorem cleanup_top_level_only_witness:
  "cleanup (PDict [(''names'', PDict [(''x'', PNone), (''retired'', PBool False),
                                      (''is_active'', PBool True)]),
                   (''aliases'', PList [PDict [(''x'', PNone), (''retired'', PBool False)],
                                        PDict [(''__p'', PInt 1), (''is_active'', PBool True)]]),
                   (''extras'', PDict [(''__a'', PInt 1),
                                       (''n'', PDict [(''__b'', PNone), (''y'', PNone)])]),
                   (''retired'', PBool False)])
     = PDict [(''names'', PDict [(''x'', PNone), (''retired'', PBool False),
                                 (''is_active'', PBool True)]),
              (''aliases'', PList [PDict [(''x'', PNone), (''retired'', PBool False)],
                                   PDict [(''__p'', PInt 1), (''is_active'', PBool True)]]),
              (''extras'', PDict [(''n'', PDict [(''__b'', PNone), (''y'', PNone)])])]
   \<and> ''aliases'' \<notin> {''retired'', ''is_active'', ''extras''}
   \<and> PList [PDict [(''x'', PNone), (''retired'', PBool False)],
             PDict [(''__p'', PInt 1), (''is_active'', PBool True)]] \<noteq> PNone
   \<and> (''aliases'', PList [PDict [(''x'', PNone), (''retired'', PBool False)],
                          PDict [(''__p'', PInt 1), (''is_active'', PBool True)]])
       \<in> set [(''names'', PDict [(''x'', PNone), (''retired'', PBool False),
                                  (''is_active'', PBool True)]),
               (''aliases'', PList [PDict [(''x'', PNone), (''retired'', PBool False)],
                                    PDict [(''__p'', PInt 1), (''is_active'', PBool True)]]),
               (''extras'', PDict [(''n'', PDict [(''__b'', PNone), (''y'', PNone)])])]
   \<and> (''names'', PDict [(''x'', PNone), (''retired'', PBool False), (''is_active'', PBool True)])
       \<in> set [(''names'', PDict [(''x'', PNone), (''retired'', PBool False),
                                  (''is_active'', PBool True)]),
               (''aliases'', PList [PDict [(''x'', PNone), (''retired'', PBool False)],
                                    PDict [(''__p'', PInt 1), (''is_active'', PBool True)]]),
               (''extras'', PDict [(''n'', PDict [(''__b'', PNone), (''y'', PNone)])])]
   \<and> cleanup (PList [PDict [(''x'', PNone)]]) = PList [PDict [(''x'', PNone)]]"
proof -
  let ?names = "PDict [(''x'', PNone), (''retired'', PBool False), (''is_active'', PBool True)]"
  let ?aliases = "PList [PDict [(''x'', PNone), (''retired'', PBool False)],
                         PDict [(''__p'', PInt 1), (''is_active'', PBool True)]]"
  let ?extras = "[(''__a'', PInt 1), (''n'', PDict [(''__b'', PNone), (''y'', PNone)])]"
  let ?kvs = "[(''names'', ?names), (''aliases'', ?aliases), (''extras'', PDict ?extras),
               (''retired'', PBool False)]"
  let ?out = "[(''names'', ?names), (''aliases'', ?aliases),
               (''extras'', PDict [(''n'', PDict [(''__b'', PNone), (''y'', PNone)])])]"
  have h: "cleanup (PDict ?kvs) = PDict ?out"
    by code_simp
  have list_field: "(''aliases'', ?aliases) \<in> set ?kvs"
    "''aliases'' \<notin> {''retired'', ''is_active'', ''extras''}" "?aliases \<noteq> PNone"
    by simp_all
  have dict_field: "(''names'', ?names) \<in> set ?kvs"
    "''names'' \<notin> {''retired'', ''is_active'', ''extras''}" "?names \<noteq> PNone"
    by simp_all
  from cleanup_top_level_only [OF h, of SNone "''u''" "[PDict [(''x'', PNone)]]" "''aliases''"
      ?aliases ?extras "PList []" "''names''" ?names] list_field
  have a: "(''aliases'', ?aliases) \<in> set ?out \<and>
           cleanup (PList [PDict [(''x'', PNone)]]) = PList [PDict [(''x'', PNone)]]"
    by blast
  from cleanup_top_level_only [OF h, of SNone "''u''" "[]" "''names''"
      ?names ?extras "PList []" "''names''" ?names] dict_field
  have b: "(''names'', ?names) \<in> set ?out"
    by blast
  from h a b list_field show ?thesis by blast
qed

section \<open>Properties of the cached checksums\<close>

text \<open>
  C6: with the toggle off, \<^verbatim>\<open>get_checksums\<close> (whatever \<^verbatim>\<open>queue\<close> and \<^verbatim>\<open>recalculate\<close>),
  \<^verbatim>\<open>set_checksums\<close>, the \<^verbatim>\<open>checksum\<close> property and \<^verbatim>\<open>get_all_checksums\<close> raise nothing,
  return \<^verbatim>\<open>None\<close>, and leave the instance, its \<^verbatim>\<open>checksums\<close> and the stored row as they were.
\<close>

theorem toggle_off_is_noop:
  "get_checksums le False queue recalculate m = Inr (None, m) \<and>
   set_checksums le False m = m \<and>
   checksum le False m = Inr (PNone, m) \<and>
   get_all_checksums le False m = None"
  by (simp add: get_checksums_def set_checksums_def checksum_def get_all_checksums_def)

text \<open>
  C9: with the toggle on, \<^verbatim>\<open>get_all_checksums\<close> returns a mapping with the keys \<^verbatim>\<open>standard\<close>
  and \<^verbatim>\<open>smart\<close>, and \<^verbatim>\<open>set_checksums\<close> stores it; when the smart-field mapping is empty the
  value under \<^verbatim>\<open>smart\<close> is \<^verbatim>\<open>None\<close>. After \<^verbatim>\<open>set_checksums\<close>, \<^verbatim>\<open>has_all_checksums\<close> holds, and
  \<^verbatim>\<open>get_checksums\<close> without \<^verbatim>\<open>recalculate\<close> returns the stored mapping and changes nothing.
\<close>

theorem set_checksums_complete:
  "get_all_checksums le True m =
      Some [(''standard'', calculate_standard_checksum le m),
            (''smart'', calculate_smart_checksum le m)] \<and>
   checksums (set_checksums le True m) = get_all_checksums le True m \<and>
   (smart_fields m = PDict [] \<longrightarrow> calculate_smart_checksum le m = PNone) \<and>
   has_all_checksums (set_checksums le True m) = Inr True \<and>
   get_checksums le True queue False (set_checksums le True m) =
      Inr (checksums (set_checksums le True m), set_checksums le True m)"
proof -
  have all: "get_all_checksums le True m =
      Some [(''standard'', calculate_standard_checksum le m),
            (''smart'', calculate_smart_checksum le m)]"
    by (simp add: get_all_checksums_def STANDARD_CHECKSUM_KEY_def SMART_CHECKSUM_KEY_def)
  have stored: "checksums (set_checksums le True m) = get_all_checksums le True m"
    by (simp add: set_checksums_def save_checksums_def calculate_checksums_def)
  have smart: "smart_fields m = PDict [] \<Longrightarrow> calculate_smart_checksum le m = PNone"
    by (simp add: calculate_smart_checksum_def)
  have complete: "has_all_checksums (set_checksums le True m) = Inr True"
    by (simp add: has_all_checksums_def has_standard_checksum_def has_smart_checksum_def
        has_key_def stored all STANDARD_CHECKSUM_KEY_def SMART_CHECKSUM_KEY_def)
  have cached: "get_checksums le True queue False (set_checksums le True m) =
      Inr (checksums (set_checksums le True m), set_checksums le True m)"
    by (simp add: get_checksums_def complete dict_truthy_def stored all)
  from all stored smart complete cached show ?thesis by blast
qed

theorem set_checksums_complete_witness:
  "smart_fields \<lparr>checksums = None, stored_checksums = None,
                 standard_fields = PDict [(''id'', PStr ''c1'')], smart_fields = PDict [],
                 queued = 0\<rparr> = PDict [] \<and>
   checksums (set_checksums tag_le True
      \<lparr>checksums = None, stored_checksums = None,
       standard_fields = PDict [(''id'', PStr ''c1'')], smart_fields = PDict [], queued = 0\<rparr>) =
     Some [(''standard'', PStr (generate_checksum tag_le (PDict [(''id'', PStr ''c1'')]))),
           (''smart'', PNone)] \<and>
   has_all_checksums (set_checksums tag_le True
      \<lparr>checksums = None, stored_checksums = None,
       standard_fields = PDict [(''id'', PStr ''c1'')], smart_fields = PDict [], queued = 0\<rparr>) =
     Inr True"
  using set_checksums_complete [of tag_le
      "\<lparr>checksums = None, stored_checksums = None,
        standard_fields = PDict [(''id'', PStr ''c1'')], smart_fields = PDict [], queued = 0\<rparr>"]
  by (simp add: calculate_standard_checksum_def)

section \<open>Properties of the differ\<close>

lemma pick_Nil: "pick m [] = []"
  by (simp add: pick_def)

lemma pick_Cons: "pick m (k # ks) = (case map_of m k of Some v \<Rightarrow> [(k, v)] | None \<Rightarrow> []) @ pick m ks"
  by (simp add: pick_def)

lemma collect_memo1:
  "memo_resources1_map d = Some m \<Longrightarrow> collect resources1_map keys d = (pick m keys, d)"
  by (induction keys) (simp_all add: resources1_map_def pick_Nil pick_Cons)

lemma collect_memo2r:
  "memo_resources2_map_retired d = Some m \<Longrightarrow> collect resources2_map_retired keys d = (pick m keys, d)"
  by (induction keys) (simp_all add: resources2_map_retired_def pick_Nil pick_Cons)

lemma deleted_loop_memo:
  "memo_retired d = Some r \<Longrightarrow> memo_resources2_map d = Some m \<Longrightarrow>
   deleted_loop keys d = (pick m (filter (\<lambda>k. k \<notin> set (map fst r)) keys), d)"
  by (induction keys) (simp_all add: retired_def resources2_map_def pick_Nil pick_Cons)

lemma pick_key: "(k, v) \<in> set (pick m keys) \<Longrightarrow> k \<in> set keys"
  by (induction keys) (auto simp: pick_Nil pick_Cons split: option.splits)

lemma distinct_pick: "distinct keys \<Longrightarrow> distinct (map fst (pick m keys))"
  by (induction keys) (auto simp: pick_Nil pick_Cons split: option.splits dest: pick_key)

lemma dict_set_fixed: "dict_set m k v = m \<longleftrightarrow> map_of m k = Some v"
  by (induction m) auto

lemma map_of_dict_set: "map_of (dict_set m k v) k' = (if k' = k then Some v else map_of m k')"
  by (induction m) auto


lemma populate_item_eq:
  "populate_item m1 m2 d (k, i) =
     (case item_checksums m1 m2 k of Inl e \<Rightarrow> Inl e | Inr cs \<Rightarrow> Inr (mark cs k i d))"
  by (auto simp: populate_item_def item_checksums_def mark_def mark_standard_def mark_smart_def
      include_same_def is_verbose_def Let_def split: sum.splits)


lemma mark_frame:
  "resources1 (mark cs k i d) = resources1 d \<and> resources2 (mark cs k i d) = resources2 d \<and>
   identity (mark cs k i d) = identity d \<and> verbosity (mark cs k i d) = verbosity d \<and>
   result (mark cs k i d) = result d \<and>
   memo_resources1_map (mark cs k i d) = memo_resources1_map d \<and>
   memo_resources1_map_retired (mark cs k i d) = memo_resources1_map_retired d \<and>
   memo_resources2_map (mark cs k i d) = memo_resources2_map d \<and>
   memo_resources2_map_retired (mark cs k i d) = memo_resources2_map_retired d \<and>
   memo_resources1_set (mark cs k i d) = memo_resources1_set d \<and>
   memo_resources1_set_retired (mark cs k i d) = memo_resources1_set_retired d \<and>
   memo_resources2_set (mark cs k i d) = memo_resources2_set d \<and>
   memo_resources2_set_retired (mark cs k i d) = memo_resources2_set_retired d \<and>
   memo_retired (mark cs k i d) = memo_retired d"
  by (simp add: mark_def mark_standard_def mark_smart_def split: prod.splits)

lemma populate_loop_frame:
  assumes "populate_loop m1 m2 items d = Inr d'"
  shows "resources1 d' = resources1 d \<and> resources2 d' = resources2 d \<and> identity d' = identity d \<and>
         verbosity d' = verbosity d \<and> result d' = result d \<and>
         memo_resources1_map d' = memo_resources1_map d \<and>
         memo_resources1_map_retired d' = memo_resources1_map_retired d \<and>
         memo_resources2_map d' = memo_resources2_map d \<and>
         memo_resources2_map_retired d' = memo_resources2_map_retired d \<and>
         memo_resources1_set d' = memo_resources1_set d \<and>
         memo_resources1_set_retired d' = memo_resources1_set_retired d \<and>
         memo_resources2_set d' = memo_resources2_set d \<and>
         memo_resources2_set_retired d' = memo_resources2_set_retired d \<and>
         memo_retired d' = memo_retired d"
  using assms
proof (induction items arbitrary: d)
  case Nil
  then show ?case by simp
next
  case (Cons item items)
  obtain k i where item: "item = (k, i)" by (cases item)
  from Cons.prems item obtain cs where rest: "populate_loop m1 m2 items (mark cs k i d) = Inr d'"
    by (auto simp: populate_item_eq split: sum.splits)
  from Cons.IH [OF rest] mark_frame [of cs k i d] show ?case by simp
qed

lemma dict_set_present: "map_of m k = Some v \<Longrightarrow> dict_set m k v = m"
  by (simp add: dict_set_fixed)

lemma include_same_mark [simp]:
  "include_same (mark_standard b k i d) = include_same d"
  "include_same (mark_smart b k i d) = include_same d"
  by (simp_all add: mark_standard_def mark_smart_def include_same_def is_verbose_def)

lemma mark_standard_fixed: "marked_standard b k i d \<Longrightarrow> mark_standard b k i d = d"
  by (simp add: marked_standard_def mark_standard_def dict_set_present split: if_splits)

lemma mark_smart_fixed: "marked_smart b k i d \<Longrightarrow> mark_smart b k i d = d"
  by (simp add: marked_smart_def mark_smart_def dict_set_present split: if_splits)

lemma marked_standard_self: "marked_standard b k i (mark_standard b k i d)"
  by (simp add: marked_standard_def mark_standard_def map_of_dict_set include_same_def
      is_verbose_def)

lemma marked_smart_self: "marked_smart b k i (mark_smart b k i d)"
  by (simp add: marked_smart_def mark_smart_def map_of_dict_set include_same_def is_verbose_def)

lemma marked_standard_other:
  "k \<noteq> k' \<Longrightarrow> marked_standard b k i (mark_standard b' k' i' d) = marked_standard b k i d"
  by (simp add: marked_standard_def mark_standard_def map_of_dict_set include_same_def
      is_verbose_def)

lemma marked_smart_other:
  "k \<noteq> k' \<Longrightarrow> marked_smart b k i (mark_smart b' k' i' d) = marked_smart b k i d"
  by (simp add: marked_smart_def mark_smart_def map_of_dict_set include_same_def is_verbose_def)

lemma marked_standard_mark_smart:
  "marked_standard b k i (mark_smart b' k' i' d) = marked_standard b k i d"
  by (simp add: marked_standard_def mark_smart_def include_same_def is_verbose_def)

lemma marked_smart_mark_standard:
  "marked_smart b k i (mark_standard b' k' i' d) = marked_smart b k i d"
  by (simp add: marked_smart_def mark_standard_def include_same_def is_verbose_def)

lemma mark_fixed: "marked cs k i d \<Longrightarrow> mark cs k i d = d"
  by (simp add: marked_def mark_def mark_standard_fixed mark_smart_fixed split: prod.splits)

lemma marked_mark: "marked cs k i (mark cs k i d)"
  by (simp add: marked_def mark_def marked_standard_self marked_smart_self
      marked_standard_mark_smart marked_smart_mark_standard split: prod.splits)

lemma marked_mark_other: "k \<noteq> k' \<Longrightarrow> marked cs k i d \<Longrightarrow> marked cs k i (mark cs' k' i' d)"
  by (simp add: marked_def mark_def marked_standard_other marked_smart_other
      marked_standard_mark_smart marked_smart_mark_standard split: prod.splits)

lemma marked_cong:
  "same d' = same d \<Longrightarrow> same_smart d' = same_smart d \<Longrightarrow> changed_smart d' = changed_smart d \<Longrightarrow>
   changed_standard d' = changed_standard d \<Longrightarrow> verbosity d' = verbosity d \<Longrightarrow>
   marked cs k i d' = marked cs k i d"
  by (simp add: marked_def marked_standard_def marked_smart_def include_same_def is_verbose_def)

lemma populate_loop_keeps_mark:
  "populate_loop m1 m2 items d = Inr d' \<Longrightarrow> k \<notin> fst ` set items \<Longrightarrow> marked cs k i d
     \<Longrightarrow> marked cs k i d'"
proof (induction items arbitrary: d)
  case Nil
  then show ?case by simp
next
  case (Cons item items)
  obtain k' i' where item: "item = (k', i')" by (cases item)
  from Cons.prems(1) item obtain cs' where
    rest: "populate_loop m1 m2 items (mark cs' k' i' d) = Inr d'"
    by (auto simp: populate_item_eq split: sum.splits)
  from Cons.prems(2) item have "k \<noteq> k'" "k \<notin> fst ` set items" by auto
  with Cons.prems(3) have "marked cs k i (mark cs' k' i' d)"
    by (simp add: marked_mark_other)
  with Cons.IH [OF rest \<open>k \<notin> fst ` set items\<close>] show ?case .
qed

lemma populate_loop_marks:
  "populate_loop m1 m2 items d = Inr d' \<Longrightarrow> distinct (map fst items) \<Longrightarrow> (k, i) \<in> set items
     \<Longrightarrow> \<exists>cs. item_checksums m1 m2 k = Inr cs \<and> marked cs k i d'"
proof (induction items arbitrary: d)
  case Nil
  then show ?case by simp
next
  case (Cons item items)
  obtain k' i' where item: "item = (k', i')" by (cases item)
  from Cons.prems(1) item obtain cs' where cs': "item_checksums m1 m2 k' = Inr cs'"
    and rest: "populate_loop m1 m2 items (mark cs' k' i' d) = Inr d'"
    by (auto simp: populate_item_eq split: sum.splits)
  show ?case
  proof (cases "(k, i) = (k', i')")
    case True
    from Cons.prems(2) item have "k' \<notin> fst ` set items" by simp
    from populate_loop_keeps_mark [OF rest this marked_mark] cs' True show ?thesis by auto
  next
    case False
    with Cons.prems(3) item have "(k, i) \<in> set items" by auto
    moreover from Cons.prems(2) have "distinct (map fst items)" by simp
    ultimately show ?thesis using Cons.IH [OF rest] by blast
  qed
qed

lemma populate_loop_settled:
  "(\<And>k i. (k, i) \<in> set items \<Longrightarrow> \<exists>cs. item_checksums m1 m2 k = Inr cs \<and> marked cs k i d)
     \<Longrightarrow> populate_loop m1 m2 items d = Inr d"
proof (induction items)
  case Nil
  show ?case by simp
next
  case (Cons item items)
  obtain k i where item: "item = (k, i)" by (cases item)
  from Cons.prems [of k i] item obtain cs where "item_checksums m1 m2 k = Inr cs" "marked cs k i d"
    by auto
  then have "populate_item m1 m2 d item = Inr d"
    by (simp add: item populate_item_eq mark_fixed)
  moreover have "populate_loop m1 m2 items d = Inr d"
    using Cons.prems by (intro Cons.IH) auto
  ultimately show ?case by simp
qed

lemma distinct_key_set: "distinct (key_set m)"
  by (simp add: key_set_def)

lemma deleted_loop_first:
  assumes "retired d = (ret, dq)" "memo_retired dq = Some ret" "memo_resources2_map dq = Some m"
  shows "deleted_loop keys d =
           (pick m (filter (\<lambda>k. k \<notin> set (map fst ret)) keys), if keys = [] then d else dq)"
proof (cases keys)
  case Nil
  then show ?thesis by (simp add: pick_Nil)
next
  case (Cons k ks)
  have rest: "deleted_loop ks dq = (pick m (filter (\<lambda>k. k \<notin> set (map fst ret)) ks), dq)"
    using assms(2,3) by (rule deleted_loop_memo)
  have "resources2_map dq = (m, dq)"
    using assms(3) by (simp add: resources2_map_def)
  with rest assms(1) show ?thesis
    by (simp add: Cons pick_Cons)
qed


lemma get_resources_map_same:
  "retired_map (get_resources_map rs) = active_map (get_resources_map rs)"
  by (simp add: get_resources_map_def)

lemma process_refresh_same:
  assumes "process False (ChecksumDiff rs1 rs2 idn verb) = Inr (r, d')"
  shows "process True d' = Inr (r, d')"
proof -
  define A1 where "A1 = active_map (get_resources_map rs1)"
  define A2 where "A2 = active_map (get_resources_map rs2)"
  define com where "com = pick A1 (set_and (key_set A1) (key_set A2))"
  define D2 where "D2 = (ChecksumDiff rs1 rs2 idn verb)
     \<lparr>memo_resources1_map := Some A1, memo_resources1_map_retired := Some A1,
      memo_resources2_map := Some A2, memo_resources2_map_retired := Some A2,
      memo_resources1_set := Some (key_set A1), memo_resources2_set := Some (key_set A2)\<rparr>"
  have pop0: "populate_diff_from_common (ChecksumDiff rs1 rs2 idn verb) = populate_loop A1 A2 com D2"
    by (simp add: populate_diff_from_common_def common_def resources1_set_def resources2_set_def
        resources1_map_def resources2_map_def ChecksumDiff_def Let_def collect_memo1
        get_resources_map_same A1_def A2_def com_def D2_def)
  have "result (ChecksumDiff rs1 rs2 idn verb) = []"
    by (simp add: ChecksumDiff_def)
  with assms have "(case populate_loop A1 A2 com D2 of Inl e \<Rightarrow> Inl e
                    | Inr d1 \<Rightarrow> Inr (result (prepare d1), prepare d1)) = Inr (r, d')"
    by (auto simp: process_def pop0 Let_def split: sum.splits)
  then obtain dp where loop: "populate_loop A1 A2 com D2 = Inr dp"
    and d': "d' = prepare dp" and r: "r = result (prepare dp)"
    by (auto split: sum.splits)
  note frame = populate_loop_frame [OF loop]
  have memo: "memo_resources1_map dp = Some A1" "memo_resources1_map_retired dp = Some A1"
    "memo_resources2_map dp = Some A2" "memo_resources2_map_retired dp = Some A2"
    "memo_resources1_set dp = Some (key_set A1)" "memo_resources2_set dp = Some (key_set A2)"
    "memo_resources1_set_retired dp = None" "memo_resources2_set_retired dp = None"
    "memo_retired dp = None" "result dp = []"
    using frame by (simp_all add: D2_def ChecksumDiff_def)
  define ret where "ret = pick A2 (set_minus (key_set A2) (key_set A1))"
  define dq where "dq = dp\<lparr>memo_resources2_set_retired := Some (key_set A2),
      memo_resources1_set_retired := Some (key_set A1), memo_retired := Some ret\<rparr>"
  have ret_dp: "retired dp = (ret, dq)"
    by (simp add: retired_def resources2_set_retired_def resources1_set_retired_def
        resources2_map_retired_def resources1_map_retired_def memo collect_memo2r ret_def dq_def)
  have ret_dq: "retired dq = (ret, dq)"
    by (simp add: retired_def dq_def)
  define n where "n = pick A1 (set_minus (key_set A1) (key_set A2))"
  define del where "del = pick A2 (filter (\<lambda>k. k \<notin> set (map fst ret))
                                      (set_minus (key_set A2) (key_set A1)))"
  have new_dp: "new dp = (n, dp)"
    by (simp add: new_def resources1_set_def resources2_set_def memo collect_memo1 n_def)
  have del_dp: "deleted dp = (del, if set_minus (key_set A2) (key_set A1) = [] then dp else dq)"
    using deleted_loop_first [OF ret_dp, of A2 "set_minus (key_set A2) (key_set A1)"]
    by (simp add: deleted_def resources1_set_def resources2_set_def memo del_def dq_def)
  define R where "R = (let r0 = [(''new'', get_struct dp n), (''removed'', get_struct dp del),
                               (''retired'', get_struct dp ret),
                               (''changed'', get_struct dp (changed_standard dp)),
                               (''smart_changed'', get_struct dp (changed_smart dp))]
                       in if include_same dp
                          then dict_set (dict_set r0 ''same'' (get_struct dp (same dp)))
                                 ''smart_same'' (get_struct dp (same_smart dp))
                          else r0)"
  have gs: "get_struct dq = get_struct dp" "include_same dq = include_same dp"
    by (simp_all add: fun_eq_iff get_struct_def include_same_def is_verbose_def
        is_very_verbose_def dq_def Let_def)
  have prep: "prepare dp = dq\<lparr>result := R\<rparr>"
    by (simp add: prepare_def new_dp del_dp ret_dp ret_dq gs R_def Let_def)
      (simp add: dq_def)
  define e where "e = dq\<lparr>result := []\<rparr>"
  have e_memo: "memo_resources1_map e = Some A1" "memo_resources2_map e = Some A2"
    "memo_resources1_set e = Some (key_set A1)" "memo_resources2_set e = Some (key_set A2)"
    "memo_retired e = Some ret"
    by (simp_all add: e_def dq_def memo)
  have e_dq: "e = dq"
    by (simp add: e_def dq_def memo)
  have marks: "\<exists>cs. item_checksums A1 A2 k = Inr cs \<and> marked cs k i e" if "(k, i) \<in> set com" for k i
  proof -
    have "distinct (map fst com)"
      by (simp add: com_def distinct_pick set_and_def distinct_key_set)
    from populate_loop_marks [OF loop this that] obtain cs
      where "item_checksums A1 A2 k = Inr cs" "marked cs k i dp" by blast
    moreover have "marked cs k i e = marked cs k i dp"
      by (rule marked_cong) (simp_all add: e_def dq_def)
    ultimately show ?thesis by blast
  qed
  have pop_e: "populate_diff_from_common e = Inr e"
    using populate_loop_settled [of com A1 A2 e] marks
    by (simp add: populate_diff_from_common_def common_def resources1_set_def resources2_set_def
        resources1_map_def resources2_map_def e_memo collect_memo1 com_def)
  have new_e: "new e = (n, e)"
    by (simp add: new_def resources1_set_def resources2_set_def e_memo collect_memo1 n_def)
  have del_e: "deleted e = (del, e)"
    by (simp add: deleted_def resources1_set_def resources2_set_def e_memo deleted_loop_memo del_def)
  have ret_e: "retired e = (ret, e)"
    by (simp add: retired_def e_memo)
  have gs_e: "get_struct e = get_struct dp" "include_same e = include_same dp"
    "changed_standard e = changed_standard dp" "changed_smart e = changed_smart dp"
    "same e = same dp" "same_smart e = same_smart dp"
    by (simp_all add: e_dq gs) (simp_all add: dq_def)
  have "prepare e = e\<lparr>result := R\<rparr>"
    by (simp add: prepare_def new_e del_e ret_e R_def Let_def gs_e)
  then have prep_e: "prepare e = dq\<lparr>result := R\<rparr>"
    by (simp add: e_def)
  have "d'\<lparr>result := []\<rparr> = e"
    by (simp add: d' prep e_def)
  moreover have "result e = []"
    by (simp add: e_def)
  ultimately have "process True d' = Inr (result (prepare e), prepare e)"
    by (simp add: process_def pop_e Let_def split: sum.splits)
  with prep_e prep d' r show ?thesis by simp
qed



lemma dict_set_nonempty: "dict_set m k v \<noteq> []"
  by (cases m) (auto split: if_splits)

lemma result_prepare_nonempty: "result (prepare d) \<noteq> []"
  by (simp add: prepare_def Let_def dict_set_nonempty split: prod.splits)

text \<open>
  C1: the code does not build the retired map the claim describes. \<^verbatim>\<open>get_resources_map\<close>
  filters \<^verbatim>\<open>retired=False\<close> for the entry \<^verbatim>\<open>'retired'\<close> as it does for \<^verbatim>\<open>'active'\<close>, so
  the two maps are the same map of the non-retired resources. With nothing on side 1 and
  one retired resource \<open>a\<close> on side 2, the retired map of side 2 is empty and so is the
  \<^verbatim>\<open>retired\<close> category, where the claim has the key \<open>a\<close> in both.
\<close>

theorem retired_map_holds_no_retired_resource:
  "retired_map (get_resources_map rs) = active_map (get_resources_map rs) \<and>
   retired_map (get_resources_map
      [\<lparr>ident = ''a'',
        res_checksums = Some [(''standard'', PStr ''h1''), (''smart'', PStr ''s1'')],
        res_id = 1, res_retired = True\<rparr>]) = [] \<and>
   fst (retired (ChecksumDiff []
      [\<lparr>ident = ''a'',
        res_checksums = Some [(''standard'', PStr ''h1''), (''smart'', PStr ''s1'')],
        res_id = 1, res_retired = True\<rparr>] ''mnemonic'' 0)) = []"
  by (simp add: get_resources_map_def get_resource_map_def retired_def ChecksumDiff_def
      resources2_set_retired_def resources1_set_retired_def resources2_map_retired_def
      resources1_map_retired_def key_set_def set_minus_def)

text \<open>
  C2: on scenario A the code leaves the key \<open>c\<close>, which is in the side-2-active key set,
  out of \<^verbatim>\<open>new\<close>, \<^verbatim>\<open>deleted\<close> and \<^verbatim>\<open>common\<close> alike, where the claim (and the spec's scenario)
  has it in \<^verbatim>\<open>deleted\<close>. The retired map being the active map, \<open>c\<close> counts as retired, and
  \<^verbatim>\<open>deleted\<close> skips every retired key.
\<close>

theorem scenario_a_key_in_no_category:
  "fst (resources1_set (scenario_a 0)) = [''a'', ''b''] \<and>
   fst (resources2_set (scenario_a 0)) = [''a'', ''c''] \<and>
   map fst (fst (new (scenario_a 0))) = [''b''] \<and>
   map fst (fst (deleted (scenario_a 0))) = [] \<and>
   map fst (fst (common (scenario_a 0))) = [''a''] \<and>
   map fst (fst (retired (scenario_a 0))) = [''c'']"
  by code_simp

text \<open>
  C8: once \<^verbatim>\<open>process()\<close> has returned a result, a second call without \<^verbatim>\<open>refresh\<close> returns
  the same mapping and leaves the differ as it is; \<^verbatim>\<open>process(refresh=True)\<close> drops the cached
  result and runs \<^verbatim>\<open>populate_diff_from_common\<close> and \<^verbatim>\<open>prepare\<close> again; and for a differ that
  came from the constructor this recomputation returns the same mapping and the same differ.
\<close>

theorem process_cached_until_refresh:
  assumes "process False d = Inr (r, d')"
  shows "process False d' = Inr (r, d') \<and>
         process True d' = (case populate_diff_from_common (d'\<lparr>result := []\<rparr>) of
                              Inl e \<Rightarrow> Inl e
                            | Inr d1 \<Rightarrow> Inr (result (prepare d1), prepare d1)) \<and>
         (d = ChecksumDiff rs1 rs2 idn verb \<longrightarrow> process True d' = Inr (r, d'))"
proof -
  have cached: "result d' = r \<and> r \<noteq> []"
    using assms
    by (auto simp: process_def Let_def result_prepare_nonempty split: if_splits sum.splits)
  then have "process False d' = Inr (r, d')"
    by (simp add: process_def)
  moreover have "process True d' = (case populate_diff_from_common (d'\<lparr>result := []\<rparr>) of
                              Inl e \<Rightarrow> Inl e
                            | Inr d1 \<Rightarrow> Inr (result (prepare d1), prepare d1))"
    by (simp add: process_def Let_def split: sum.splits)
  moreover have "process True d' = Inr (r, d')" if "d = ChecksumDiff rs1 rs2 idn verb"
    using assms unfolding that by (rule process_refresh_same)
  ultimately show ?thesis by simp
qed

theorem process_cached_until_refresh_witness:
  "(case process False (scenario_a 1) of
      Inl e \<Rightarrow> False
    | Inr (r, d') \<Rightarrow>
        r = [(''new'', PInt 1), (''removed'', PInt 0), (''retired'', PInt 1), (''changed'', PInt 0),
             (''smart_changed'', PInt 0), (''same'', PInt 1), (''smart_same'', PInt 1)] \<and>
        process False d' = Inr (r, d') \<and> process True d' = Inr (r, d'))"
proof -
  let ?R = "[(''new'', PInt 1), (''removed'', PInt 0), (''retired'', PInt 1), (''changed'', PInt 0),
             (''smart_changed'', PInt 0), (''same'', PInt 1), (''smart_same'', PInt 1)]"
  have "(case process False (scenario_a 1) of Inl e \<Rightarrow> False | Inr (r, d') \<Rightarrow> r = ?R)"
    by code_simp
  then obtain d' where run: "process False (scenario_a 1) = Inr (?R, d')"
    by (auto split: sum.splits)
  let ?rs1 = "[\<lparr>ident = ''a'',
                 res_checksums = Some [(''standard'', PStr ''h1''), (''smart'', PStr ''s1'')],
                 res_id = 1, res_retired = False\<rparr>,
               \<lparr>ident = ''b'',
                 res_checksums = Some [(''standard'', PStr ''h2''), (''smart'', PStr ''s2'')],
                 res_id = 2, res_retired = False\<rparr>]"
  let ?rs2 = "[\<lparr>ident = ''a'',
                 res_checksums = Some [(''standard'', PStr ''h1''), (''smart'', PStr ''s1'')],
                 res_id = 3, res_retired = False\<rparr>,
               \<lparr>ident = ''c'',
                 res_checksums = Some [(''standard'', PStr ''h3''), (''smart'', PStr ''s3'')],
                 res_id = 4, res_retired = False\<rparr>]"
  have init: "scenario_a 1 = ChecksumDiff ?rs1 ?rs2 ''mnemonic'' 1"
    by (simp add: scenario_a_def)
  from process_cached_until_refresh [OF run, of ?rs1 ?rs2 "''mnemonic''" 1] init
  have "process False d' = Inr (?R, d') \<and> process True d' = Inr (?R, d')"
    by blast
  with run show ?thesis by simp
qed

end
